theory Spec2Isabelle
  imports Main
begin

unbundle bit_operations_syntax

section \<open>Exceptions and results\<close>

text \<open>
  The notebook's code raises \<^verbatim>\<open>ValueError\<close> itself (the guard of \<^verbatim>\<open>__rsub__\<close>); the
  library calls it makes raise \<^verbatim>\<open>TypeError\<close> (\<^verbatim>\<open>functools.reduce\<close> on an empty
  sequence), \<^verbatim>\<open>IndexError\<close> (\<^verbatim>\<open>list(...)[0]\<close> on an empty list) and
  \<^verbatim>\<open>NetworkXError\<close> (\<^verbatim>\<open>union\<close> of graphs that share a node). A computation that may
  raise returns \<open>error + 'a\<close>, with \<open>Inl\<close> for the exception.
\<close>

datatype error = TypeError | ValueError | IndexError | NetworkXError

definition then_res :: "error + 'a \<Rightarrow> ('a \<Rightarrow> error + 'b) \<Rightarrow> error + 'b" where
  "then_res m f = (case m of Inl e \<Rightarrow> Inl e | Inr x \<Rightarrow> f x)"

section \<open>The polymorphic functions \<^verbatim>\<open>equal\<close> and \<^verbatim>\<open>equals\<close>\<close>

text \<open>
  \<^verbatim>\<open>
  def equal(x, y):
      return (x & y) | ((1 - x) & (1 - y))

  def equals(xs, ys):
      from functools import reduce
      es = [equal(x, y) for (x, y) in zip(xs, ys)]
      return reduce((lambda e0, e1: e0 & e1), es)
  \<close>
  The notebook defines \<^verbatim>\<open>equals\<close> twice, first with a loop and then with \<^verbatim>\<open>reduce\<close>; the
  second definition replaces the first and is the one every later cell calls. Both
  functions are duck-typed: what \<^verbatim>\<open>&\<close>, \<^verbatim>\<open>|\<close> and \<^verbatim>\<open>1 - x\<close> do is decided by the class of
  the operands. The model takes the three operators as a record, one instance for Python
  integers and one for each of the three \<^verbatim>\<open>circuit\<close> classes. Operands are evaluated
  left to right and the first exception ends the evaluation.
\<close>

record 'a ops =
  op_and :: "'a \<Rightarrow> 'a \<Rightarrow> error + 'a"
  op_or :: "'a \<Rightarrow> 'a \<Rightarrow> error + 'a"
  op_one_minus :: "'a \<Rightarrow> error + 'a"

definition equal :: "'a ops \<Rightarrow> 'a \<Rightarrow> 'a \<Rightarrow> error + 'a" where
  "equal ops x y =
     then_res (op_and ops x y) (\<lambda>a.
     then_res (op_one_minus ops x) (\<lambda>nx.
     then_res (op_one_minus ops y) (\<lambda>ny.
     then_res (op_and ops nx ny) (\<lambda>b.
     op_or ops a b))))"

text \<open>The list comprehension: the elements in order, stopping at the first exception.\<close>

fun map_res :: "('a \<Rightarrow> error + 'b) \<Rightarrow> 'a list \<Rightarrow> error + 'b list" where
  "map_res f [] = Inr []"
| "map_res f (x # xs) =
     then_res (f x) (\<lambda>y. then_res (map_res f xs) (\<lambda>ys. Inr (y # ys)))"

text \<open>
  \<^verbatim>\<open>functools.reduce(function, sequence)\<close> without an initial value: the first element
  starts the accumulator, and an empty sequence raises \<^verbatim>\<open>TypeError\<close>.
\<close>

fun reduce_from :: "('a \<Rightarrow> 'a \<Rightarrow> error + 'a) \<Rightarrow> 'a \<Rightarrow> 'a list \<Rightarrow> error + 'a" where
  "reduce_from f acc [] = Inr acc"
| "reduce_from f acc (x # xs) = then_res (f acc x) (\<lambda>acc'. reduce_from f acc' xs)"

fun reduce :: "('a \<Rightarrow> 'a \<Rightarrow> error + 'a) \<Rightarrow> 'a list \<Rightarrow> error + 'a" where
  "reduce f [] = Inl TypeError"
| "reduce f (x # xs) = reduce_from f x xs"

definition equals :: "'a ops \<Rightarrow> 'a list \<Rightarrow> 'a list \<Rightarrow> error + 'a" where
  "equals ops xs ys =
     then_res (map_res (\<lambda>(x, y). equal ops x y) (zip xs ys)) (\<lambda>es.
     reduce (\<lambda>e0 e1. op_and ops e0 e1) es)"

subsection \<open>Python integers\<close>

text \<open>
  Python's \<^verbatim>\<open>int\<close> is unbounded and \<^verbatim>\<open>&\<close>, \<^verbatim>\<open>|\<close> are the bitwise operations on the
  two's complement representation, as \<open>AND\<close> and \<open>OR\<close> on \<^typ>\<open>int\<close> are. None of the
  three raises.
\<close>

definition int_ops :: "int ops" where
  "int_ops = \<lparr>op_and = (\<lambda>x y. Inr (x AND y)),
              op_or = (\<lambda>x y. Inr (x OR y)),
              op_one_minus = (\<lambda>x. Inr (1 - x))\<rparr>"

section \<open>The \<^verbatim>\<open>vector\<close> class\<close>

text \<open>
  \<^verbatim>\<open>
  class vector():
      def __init__(self, *coordinates):
          self.coordinates = coordinates

      def __eq__(self, other):
          return self.coordinates == other.coordinates
  \<close>
  The coordinates are a tuple. Python compares two tuples item by item up to the first
  pair of items that differ, and compares the lengths when one tuple runs out; the items
  are compared by their own equality, which the model takes to be equality on the
  element type (as it is for Python integers).
\<close>

record 'a vector =
  coordinates :: "'a list"

definition vector_init :: "'a list \<Rightarrow> 'a vector" where
  "vector_init cs = \<lparr>coordinates = cs\<rparr>"

fun tuple_eq :: "'a list \<Rightarrow> 'a list \<Rightarrow> bool" where
  "tuple_eq [] [] = True"
| "tuple_eq (x # xs) (y # ys) = (if x = y then tuple_eq xs ys else False)"
| "tuple_eq _ _ = False"

definition vector_eq :: "'a vector \<Rightarrow> 'a vector \<Rightarrow> bool" where
  "vector_eq self other = tuple_eq (coordinates self) (coordinates other)"

section \<open>Python values\<close>

text \<open>
  The operands the overloaded operators may receive: integers, booleans, strings,
  \<^verbatim>\<open>None\<close>, lists, and objects of the \<^verbatim>\<open>circuit\<close> class at hand (the type
  parameter, since the notebook defines the class three times).
\<close>

datatype 'c pyval =
  PInt int | PBool bool | PStr string | PNone | PList "'c pyval list" | PObj 'c

text \<open>
  \<^verbatim>\<open>isinstance(v, int)\<close> holds for integers and for booleans (\<^verbatim>\<open>bool\<close> is a subclass
  of \<^verbatim>\<open>int\<close>, with \<^verbatim>\<open>True == 1\<close> and \<^verbatim>\<open>False == 0\<close>); \<open>as_int\<close> gives the integer
  such a value compares as.
\<close>

fun as_int :: "'c pyval \<Rightarrow> int option" where
  "as_int (PInt n) = Some n"
| "as_int (PBool b) = Some (if b then 1 else 0)"
| "as_int _ = None"

text \<open>
  The guard of every \<^verbatim>\<open>__rsub__\<close>: \<^verbatim>\<open>not isinstance(other, int) or other != 1\<close>. The
  comparison is only evaluated for an instance of \<^verbatim>\<open>int\<close>.
\<close>

definition not_int_one :: "'c pyval \<Rightarrow> bool" where
  "not_int_one other = (case as_int other of None \<Rightarrow> True | Some n \<Rightarrow> n \<noteq> 1)"



section \<open>First variant: operation-tagged trees\<close>

text \<open>
  \<^verbatim>\<open>
  class circuit():
      def __init__(self, op='bit', args=None):
          self.op = op
          self.args = [] if args is None else args

      def __or__(self, other):
          return circuit('or', [self, other])

      def __and__(self, other):
          return circuit('and', [self, other])

      def __rsub__(self, other):
          if not isinstance(other, int) or other != 1:
              raise ValueError('can only subtract from 1')
          return circuit('not', [self])
  \<close>
  The objects are never mutated after construction, so an object is the value of its two
  fields; the section on the store below keeps the references explicit.
\<close>

datatype circuit = Circuit (op: string) (args: "circuit pyval")

definition circuit_init :: "string \<Rightarrow> circuit pyval \<Rightarrow> circuit" where
  "circuit_init opn a = Circuit opn (if a = PNone then PList [] else a)"

definition circuit_or :: "circuit \<Rightarrow> circuit pyval \<Rightarrow> circuit" where
  "circuit_or self other = circuit_init ''or'' (PList [PObj self, other])"

definition circuit_and :: "circuit \<Rightarrow> circuit pyval \<Rightarrow> circuit" where
  "circuit_and self other = circuit_init ''and'' (PList [PObj self, other])"

definition circuit_rsub :: "circuit \<Rightarrow> circuit pyval \<Rightarrow> error + circuit" where
  "circuit_rsub self other =
     (if not_int_one other then Inl ValueError
      else Inr (circuit_init ''not'' (PList [PObj self])))"

definition circuit_ops :: "circuit ops" where
  "circuit_ops = \<lparr>op_and = (\<lambda>x y. Inr (circuit_and x (PObj y))),
                  op_or = (\<lambda>x y. Inr (circuit_or x (PObj y))),
                  op_one_minus = (\<lambda>x. circuit_rsub x (PInt 1))\<rparr>"

section \<open>Second variant: dictionaries\<close>

text \<open>
  \<^verbatim>\<open>
  class circuit(dict):
      def __or__(self, other):
          return circuit({'or': [self, other]})

      def __and__(self, other):
          return circuit({'and': [self, other]})

      def __rsub__(self, other):
          if not isinstance(other, int) or other != 1:
              raise ValueError('can only subtract from 1')
          return circuit({'not': [self]})
  \<close>
  A dictionary keeps its entries in insertion order: an association list with string
  keys. The constructor inherited from \<^verbatim>\<open>dict\<close> copies the entries of the dictionary it
  is given.
\<close>

datatype dcircuit = DCircuit (items: "(string \<times> dcircuit pyval) list")

definition dcircuit_init :: "(string \<times> dcircuit pyval) list \<Rightarrow> dcircuit" where
  "dcircuit_init kvs = DCircuit kvs"

definition dcircuit_or :: "dcircuit \<Rightarrow> dcircuit pyval \<Rightarrow> dcircuit" where
  "dcircuit_or self other = dcircuit_init [(''or'', PList [PObj self, other])]"

definition dcircuit_and :: "dcircuit \<Rightarrow> dcircuit pyval \<Rightarrow> dcircuit" where
  "dcircuit_and self other = dcircuit_init [(''and'', PList [PObj self, other])]"

definition dcircuit_rsub :: "dcircuit \<Rightarrow> dcircuit pyval \<Rightarrow> error + dcircuit" where
  "dcircuit_rsub self other =
     (if not_int_one other then Inl ValueError
      else Inr (dcircuit_init [(''not'', PList [PObj self])]))"

definition dcircuit_ops :: "dcircuit ops" where
  "dcircuit_ops = \<lparr>op_and = (\<lambda>x y. Inr (dcircuit_and x (PObj y))),
                   op_or = (\<lambda>x y. Inr (dcircuit_or x (PObj y))),
                   op_one_minus = (\<lambda>x. dcircuit_rsub x (PInt 1))\<rparr>"

subsection \<open>\<^verbatim>\<open>json.dumps\<close> on dictionary circuits\<close>

text \<open>
  The library function with its default arguments: items separated by a comma and a
  space, keys from values by a colon and a space, integers in decimal, strings between
  double quotes with the quote, the backslash and every character outside the printable
  ASCII range escaped. A \<^verbatim>\<open>circuit\<close> is serialised as the dictionary it is. The digit
  tables are only read at indices below their length.
\<close>

definition digit_char :: "nat \<Rightarrow> char" where
  "digit_char d = ''0123456789'' ! d"

fun decimal :: "nat \<Rightarrow> string" where
  "decimal n = (if n < 10 then [digit_char n] else decimal (n div 10) @ [digit_char (n mod 10)])"

definition str_int :: "int \<Rightarrow> string" where
  "str_int i = (if i < 0 then CHR ''-'' # decimal (nat (- i)) else decimal (nat i))"

definition hex_char :: "nat \<Rightarrow> char" where
  "hex_char d = ''0123456789abcdef'' ! d"

definition json_escape_char :: "char \<Rightarrow> string" where
  "json_escape_char c =
     (if c = CHR 0x22 then [CHR 0x5C, CHR 0x22]
      else if c = CHR 0x5C then [CHR 0x5C, CHR 0x5C]
      else if c = CHR 0x0A then [CHR 0x5C, CHR ''n'']
      else if c = CHR 0x0D then [CHR 0x5C, CHR ''r'']
      else if c = CHR 0x09 then [CHR 0x5C, CHR ''t'']
      else if c = CHR 0x08 then [CHR 0x5C, CHR ''b'']
      else if c = CHR 0x0C then [CHR 0x5C, CHR ''f'']
      else if (of_char c :: nat) < 32 \<or> 126 < (of_char c :: nat)
        then [CHR 0x5C, CHR ''u'', CHR ''0'', CHR ''0'',
              hex_char (of_char c div 16), hex_char (of_char c mod 16)]
      else [c])"

definition json_string :: "string \<Rightarrow> string" where
  "json_string s = CHR 0x22 # concat (map json_escape_char s) @ [CHR 0x22]"

fun join :: "string \<Rightarrow> string list \<Rightarrow> string" where
  "join sep [] = []"
| "join sep [s] = s"
| "join sep (s # t # ss) = s @ sep @ join sep (t # ss)"

text \<open>
  A value whose nested circuits have already been serialised (the type parameter is
  \<^typ>\<open>string\<close>), then a circuit: its nested circuits first, then its own entries.
\<close>

primrec dumps_pyval :: "string pyval \<Rightarrow> string" where
  "dumps_pyval (PInt n) = str_int n"
| "dumps_pyval (PBool b) = (if b then ''true'' else ''false'')"
| "dumps_pyval (PStr s) = json_string s"
| "dumps_pyval PNone = ''null''"
| "dumps_pyval (PList vs) = ''['' @ join '', '' (map dumps_pyval vs) @ '']''"
| "dumps_pyval (PObj s) = s"

definition dumps_items :: "(string \<times> string pyval) list \<Rightarrow> string" where
  "dumps_items kvs =
     ''{'' @ join '', '' (map (\<lambda>(k, v). json_string k @ '': '' @ dumps_pyval v) kvs) @ ''}''"

primrec dumps :: "dcircuit \<Rightarrow> string" where
  "dumps (DCircuit kvs) = dumps_items (map (map_prod id (map_pyval dumps)) kvs)"

section \<open>Third variant: NetworkX graphs\<close>

subsection \<open>The part of the \<^verbatim>\<open>Graph\<close> class the notebook uses\<close>

text \<open>
  A \<^verbatim>\<open>Graph\<close> keeps its nodes in a dictionary, so \<^verbatim>\<open>list(G.nodes)\<close> is in insertion
  order and adding a node twice changes nothing. Edges are undirected and an edge is
  stored once: adding an edge adds the end points that are missing, and adding an edge
  that is there (in either direction) changes nothing. The nodes of the notebook are
  strings. \<^verbatim>\<open>len(G.edges)\<close> is the number of edges.
\<close>

record graph =
  nodes :: "string list"
  edges :: "(string \<times> string) list"

definition empty_graph :: graph where
  "empty_graph = \<lparr>nodes = [], edges = []\<rparr>"

definition add_node :: "graph \<Rightarrow> string \<Rightarrow> graph" where
  "add_node g n = (if n \<in> set (nodes g) then g else g\<lparr>nodes := nodes g @ [n]\<rparr>)"

definition add_nodes_from :: "graph \<Rightarrow> string list \<Rightarrow> graph" where
  "add_nodes_from g ns = foldl add_node g ns"

definition has_edge :: "graph \<Rightarrow> string \<Rightarrow> string \<Rightarrow> bool" where
  "has_edge g u v = ((u, v) \<in> set (edges g) \<or> (v, u) \<in> set (edges g))"

definition add_edge :: "graph \<Rightarrow> string \<times> string \<Rightarrow> graph" where
  "add_edge g e =
     (let g' = add_node (add_node g (fst e)) (snd e)
      in if has_edge g' (fst e) (snd e) then g' else g'\<lparr>edges := edges g' @ [e]\<rparr>)"

definition add_edges_from :: "graph \<Rightarrow> (string \<times> string) list \<Rightarrow> graph" where
  "add_edges_from g es = foldl add_edge g es"


text \<open>
  \<^verbatim>\<open>relabel_nodes(G, mapping)\<close> builds a new graph of the class of \<^verbatim>\<open>G\<close> from the
  renamed nodes and then the renamed edges. \<^verbatim>\<open>union(G, H, rename)\<close> prefixes the node
  names (a prefix \<^verbatim>\<open>None\<close> leaves the graph as it is), raises \<^verbatim>\<open>NetworkXError\<close> when
  the two node sets meet, and otherwise fills a new graph of the class of \<^verbatim>\<open>G\<close> with
  the nodes of both and then the edges of both.
\<close>

definition relabel_nodes :: "(string \<Rightarrow> string) \<Rightarrow> graph \<Rightarrow> graph" where
  "relabel_nodes f g =
     add_edges_from (add_nodes_from empty_graph (map f (nodes g)))
       (map (\<lambda>(u, v). (f u, f v)) (edges g))"

definition add_prefix :: "graph \<Rightarrow> string option \<Rightarrow> graph" where
  "add_prefix g prefix = (case prefix of None \<Rightarrow> g | Some p \<Rightarrow> relabel_nodes (\<lambda>x. p @ x) g)"

definition union_graph :: "graph \<Rightarrow> graph \<Rightarrow> string option \<times> string option \<Rightarrow> error + graph" where
  "union_graph G H rename =
     (let G' = add_prefix G (fst rename); H' = add_prefix H (snd rename)
      in if list_ex (\<lambda>n. n \<in> set (nodes H')) (nodes G') then Inl NetworkXError
         else Inr (add_edges_from (add_edges_from
                (add_nodes_from (add_nodes_from empty_graph (nodes G')) (nodes H'))
                (edges G')) (edges H')))"

subsection \<open>The \<^verbatim>\<open>circuit\<close> class derived from \<^verbatim>\<open>Graph\<close>\<close>

text \<open>
  \<^verbatim>\<open>
  class circuit(Graph):
      def __init__(self, arg=None):
          Graph.__init__(self)
          if arg is not None:
              self.add_nodes_from([str(arg)])

      def __or__(self, other):
          c = union(
              circuit("$\\vee$"),
              union(self, other, rename=("l-", "r-"))
          )
          c.add_edges_from([
              ("$\\vee$", "l-" + list(self.nodes)[0]),
              ("$\\vee$", "r-" + list(other.nodes)[0])
          ])
          return c

      def __rsub__(self, other):
          if not isinstance(other, int) or other != 1:
              raise ValueError('can only subtract from 1')
          c = union(circuit("$\\neg$"), self, rename=("", "n-"))
          c.add_edges_from([("$\\neg$", "n-"+list(self.nodes)[0])])
          return c
  \<close>
  \<^verbatim>\<open>__and__\<close> is \<^verbatim>\<open>__or__\<close> with the label \<^verbatim>\<open>"$\\wedge$"\<close>. The constructor is given a
  string or nothing in the notebook, and \<^verbatim>\<open>str\<close> of a string is the string. The class
  of a \<^verbatim>\<open>circuit\<close> is \<^verbatim>\<open>circuit\<close>, so the new graph of \<^verbatim>\<open>union\<close> and of \<^verbatim>\<open>relabel_nodes\<close>
  is \<^verbatim>\<open>circuit()\<close>, the empty graph. \<^verbatim>\<open>list(self.nodes)[0]\<close> raises \<^verbatim>\<open>IndexError\<close> on a
  graph without nodes. The label strings hold one backslash each (character 0x5C).
\<close>

definition gcircuit_init :: "string option \<Rightarrow> graph" where
  "gcircuit_init arg =
     (case arg of None \<Rightarrow> empty_graph | Some s \<Rightarrow> add_nodes_from empty_graph [s])"

definition vee :: string where
  "vee = CHR ''$'' # CHR 0x5C # ''vee$''"

definition wedge :: string where
  "wedge = CHR ''$'' # CHR 0x5C # ''wedge$''"

definition neg :: string where
  "neg = CHR ''$'' # CHR 0x5C # ''neg$''"

definition first_node :: "graph \<Rightarrow> error + string" where
  "first_node g = (case nodes g of [] \<Rightarrow> Inl IndexError | n # _ \<Rightarrow> Inr n)"

definition gcircuit_binary :: "string \<Rightarrow> graph \<Rightarrow> graph \<Rightarrow> error + graph" where
  "gcircuit_binary label self other =
     then_res (union_graph self other (Some ''l-'', Some ''r-'')) (\<lambda>lr.
     then_res (union_graph (gcircuit_init (Some label)) lr (None, None)) (\<lambda>c.
     then_res (first_node self) (\<lambda>l.
     then_res (first_node other) (\<lambda>r.
     Inr (add_edges_from c [(label, ''l-'' @ l), (label, ''r-'' @ r)])))))"

definition gcircuit_or :: "graph \<Rightarrow> graph \<Rightarrow> error + graph" where
  "gcircuit_or self other = gcircuit_binary vee self other"

definition gcircuit_and :: "graph \<Rightarrow> graph \<Rightarrow> error + graph" where
  "gcircuit_and self other = gcircuit_binary wedge self other"

definition gcircuit_rsub :: "graph \<Rightarrow> graph pyval \<Rightarrow> error + graph" where
  "gcircuit_rsub self other =
     (if not_int_one other then Inl ValueError
      else then_res (union_graph (gcircuit_init (Some neg)) self (Some [], Some ''n-'')) (\<lambda>c.
           then_res (first_node self) (\<lambda>n.
           Inr (add_edges_from c [(neg, ''n-'' @ n)]))))"

definition gcircuit_ops :: "graph ops" where
  "gcircuit_ops = \<lparr>op_and = gcircuit_and, op_or = gcircuit_or,
                   op_one_minus = (\<lambda>x. gcircuit_rsub x (PInt 1))\<rparr>"

subsection \<open>Node names as paths\<close>




section \<open>Trees of the first variant\<close>

text \<open>
  The values the operators build from bit constants: \<^verbatim>\<open>circuit("bit", 0)\<close>,
  \<^verbatim>\<open>circuit("bit", 1)\<close> and \<^verbatim>\<open>circuit()\<close> (whose \<^verbatim>\<open>args\<close> is the empty list), closed
  under \<^verbatim>\<open>c | d\<close>, \<^verbatim>\<open>c & d\<close> and \<^verbatim>\<open>1 - c\<close>.
\<close>

inductive built :: "circuit \<Rightarrow> bool" where
  bit: "b = 0 \<or> b = 1 \<Longrightarrow> built (circuit_init ''bit'' (PInt b))"
| bit_default: "built (circuit_init ''bit'' PNone)"
| disj: "built c \<Longrightarrow> built d \<Longrightarrow> built (circuit_or c (PObj d))"
| conj: "built c \<Longrightarrow> built d \<Longrightarrow> built (circuit_and c (PObj d))"
| negation: "built c \<Longrightarrow> circuit_rsub c (PInt 1) = Inr n \<Longrightarrow> built n"

text \<open>
  The shape of an operation-tagged tree, checked from the fields: \<open>node_ok\<close> looks at
  the \<^verbatim>\<open>op\<close> of one node and at its \<^verbatim>\<open>args\<close>, where every nested circuit has been
  replaced by the verdict on it; \<open>op_tagged_tree\<close> checks every node.
\<close>

fun sub_ok :: "bool pyval \<Rightarrow> bool" where
  "sub_ok (PObj b) = b"
| "sub_ok _ = False"

definition node_ok :: "string \<Rightarrow> bool pyval \<Rightarrow> bool" where
  "node_ok opn a =
     (if opn = ''bit'' then a = PList [] \<or> a = PInt 0 \<or> a = PInt 1
      else if opn = ''or'' \<or> opn = ''and''
        then (case a of PList vs \<Rightarrow> length vs = 2 \<and> list_all sub_ok vs | _ \<Rightarrow> False)
      else if opn = ''not''
        then (case a of PList vs \<Rightarrow> length vs = 1 \<and> list_all sub_ok vs | _ \<Rightarrow> False)
      else False)"

primrec op_tagged_tree :: "circuit \<Rightarrow> bool" where
  "op_tagged_tree (Circuit opn a) = node_ok opn (map_pyval op_tagged_tree a)"

section \<open>Expressions over bit constants\<close>

text \<open>
  A Python expression made of bit constants, \<^verbatim>\<open>|\<close>, \<^verbatim>\<open>&\<close> and \<^verbatim>\<open>1 -\<close>, and its
  evaluation with the operators of a class: operands left to right, the first exception
  ends it. The bit constant \<^verbatim>\<open>b\<close> is \<^verbatim>\<open>circuit("bit", b)\<close> in the first variant and
  \<^verbatim>\<open>circuit({"bit": b})\<close> in the second.
\<close>

datatype expr = EBit int | EOr expr expr | EAnd expr expr | ENot expr

fun build :: "'a ops \<Rightarrow> (int \<Rightarrow> 'a) \<Rightarrow> expr \<Rightarrow> error + 'a" where
  "build ops leaf (EBit b) = Inr (leaf b)"
| "build ops leaf (EOr e1 e2) =
     then_res (build ops leaf e1) (\<lambda>x. then_res (build ops leaf e2) (\<lambda>y. op_or ops x y))"
| "build ops leaf (EAnd e1 e2) =
     then_res (build ops leaf e1) (\<lambda>x. then_res (build ops leaf e2) (\<lambda>y. op_and ops x y))"
| "build ops leaf (ENot e) = then_res (build ops leaf e) (\<lambda>x. op_one_minus ops x)"

definition circuit_bit :: "int \<Rightarrow> circuit" where
  "circuit_bit b = circuit_init ''bit'' (PInt b)"

definition dcircuit_bit :: "int \<Rightarrow> dcircuit" where
  "dcircuit_bit b = dcircuit_init [(''bit'', PInt b)]"

text \<open>
  The mapping between the two variants, as the claim words it: \<^verbatim>\<open>circuit(op, args)\<close>
  goes to the one-entry dictionary \<^verbatim>\<open>{op: args}\<close>, at every node of the tree.
\<close>

primrec to_dict :: "circuit \<Rightarrow> dcircuit" where
  "to_dict (Circuit opn a) = DCircuit [(opn, map_pyval to_dict a)]"

section \<open>Objects in a store\<close>

text \<open>
  Python objects are references. To say that an operator returns a new object and leaves
  its operands as they were, the objects live in a store: a list of objects, the address
  of an object being its index. Creating an object appends it. A value held in a field
  is a \<^typ>\<open>nat pyval\<close>, with \<open>PObj a\<close> the reference to the object at address \<open>a\<close>.
  A reference in a running program is the address of an object that exists; where an
  operator reads an operand from the store the theorems take its address to be below the
  length of the store.
\<close>

definition alloc :: "'o list \<Rightarrow> 'o \<Rightarrow> 'o list \<times> nat" where
  "alloc h x = (h @ [x], length h)"

subsection \<open>First variant\<close>

datatype cobject = CObject (cop: string) (cargs: "nat pyval")

definition circuit_init_s :: "cobject list \<Rightarrow> string \<Rightarrow> nat pyval \<Rightarrow> cobject list \<times> nat" where
  "circuit_init_s h opn a = alloc h (CObject opn (if a = PNone then PList [] else a))"

definition circuit_or_s :: "cobject list \<Rightarrow> nat \<Rightarrow> nat pyval \<Rightarrow> cobject list \<times> nat" where
  "circuit_or_s h self other = circuit_init_s h ''or'' (PList [PObj self, other])"

definition circuit_and_s :: "cobject list \<Rightarrow> nat \<Rightarrow> nat pyval \<Rightarrow> cobject list \<times> nat" where
  "circuit_and_s h self other = circuit_init_s h ''and'' (PList [PObj self, other])"

definition circuit_rsub_s ::
  "cobject list \<Rightarrow> nat \<Rightarrow> nat pyval \<Rightarrow> cobject list \<times> (error + nat)" where
  "circuit_rsub_s h self other =
     (if not_int_one other then (h, Inl ValueError)
      else (let (h', r) = circuit_init_s h ''not'' (PList [PObj self]) in (h', Inr r)))"

subsection \<open>Second variant\<close>

type_synonym dobject = "(string \<times> nat pyval) list"

definition dcircuit_init_s :: "dobject list \<Rightarrow> (string \<times> nat pyval) list \<Rightarrow> dobject list \<times> nat" where
  "dcircuit_init_s h kvs = alloc h kvs"

definition dcircuit_or_s :: "dobject list \<Rightarrow> nat \<Rightarrow> nat pyval \<Rightarrow> dobject list \<times> nat" where
  "dcircuit_or_s h self other = dcircuit_init_s h [(''or'', PList [PObj self, other])]"

definition dcircuit_and_s :: "dobject list \<Rightarrow> nat \<Rightarrow> nat pyval \<Rightarrow> dobject list \<times> nat" where
  "dcircuit_and_s h self other = dcircuit_init_s h [(''and'', PList [PObj self, other])]"

definition dcircuit_rsub_s ::
  "dobject list \<Rightarrow> nat \<Rightarrow> nat pyval \<Rightarrow> dobject list \<times> (error + nat)" where
  "dcircuit_rsub_s h self other =
     (if not_int_one other then (h, Inl ValueError)
      else (let (h', r) = dcircuit_init_s h [(''not'', PList [PObj self])] in (h', Inr r)))"

subsection \<open>Third variant\<close>

text \<open>
  A graph holds strings only, so a graph object is the \<^typ>\<open>graph\<close> itself. The methods
  create \<^verbatim>\<open>circuit(label)\<close>, then the graphs the two calls of \<^verbatim>\<open>union\<close> return, and
  then update the last one in place with \<^verbatim>\<open>c.add_edges_from\<close>; the graphs that
  \<^verbatim>\<open>union\<close> creates inside itself and drops are left out. An exception leaves the store
  as it is at that point.
\<close>

definition gcircuit_binary_s ::
  "string \<Rightarrow> graph list \<Rightarrow> nat \<Rightarrow> nat \<Rightarrow> graph list \<times> (error + nat)" where
  "gcircuit_binary_s label h self other =
     (let (h1, t) = alloc h (gcircuit_init (Some label))
      in case union_graph (h1 ! self) (h1 ! other) (Some ''l-'', Some ''r-'') of
           Inl e \<Rightarrow> (h1, Inl e)
         | Inr lr \<Rightarrow>
          (let (h2, u) = alloc h1 lr
           in case union_graph (h2 ! t) (h2 ! u) (None, None) of
                Inl e \<Rightarrow> (h2, Inl e)
              | Inr g \<Rightarrow>
               (let (h3, c) = alloc h2 g
                in case first_node (h3 ! self) of
                     Inl e \<Rightarrow> (h3, Inl e)
                   | Inr l \<Rightarrow>
                    (case first_node (h3 ! other) of
                       Inl e \<Rightarrow> (h3, Inl e)
                     | Inr r \<Rightarrow>
                        (h3[c := add_edges_from (h3 ! c)
                                   [(label, ''l-'' @ l), (label, ''r-'' @ r)]],
                         Inr c)))))"

definition gcircuit_or_s :: "graph list \<Rightarrow> nat \<Rightarrow> nat \<Rightarrow> graph list \<times> (error + nat)" where
  "gcircuit_or_s h self other = gcircuit_binary_s vee h self other"

definition gcircuit_and_s :: "graph list \<Rightarrow> nat \<Rightarrow> nat \<Rightarrow> graph list \<times> (error + nat)" where
  "gcircuit_and_s h self other = gcircuit_binary_s wedge h self other"

definition gcircuit_rsub_s ::
  "graph list \<Rightarrow> nat \<Rightarrow> graph pyval \<Rightarrow> graph list \<times> (error + nat)" where
  "gcircuit_rsub_s h self other =
     (if not_int_one other then (h, Inl ValueError)
      else (let (h1, t) = alloc h (gcircuit_init (Some neg))
            in case union_graph (h1 ! t) (h1 ! self) (Some [], Some ''n-'') of
                 Inl e \<Rightarrow> (h1, Inl e)
               | Inr g \<Rightarrow>
                (let (h2, c) = alloc h1 g
                 in case first_node (h2 ! self) of
                      Inl e \<Rightarrow> (h2, Inl e)
                    | Inr n \<Rightarrow>
                       (h2[c := add_edges_from (h2 ! c) [(neg, ''n-'' @ n)]], Inr c))))"

subsection \<open>The tree an address stands for\<close>

text \<open>
  The sections on the first two variants treat a circuit as the tree of its fields. That
  tree is what the store holds behind an address: \<open>rep h a t\<close> says that following the
  references from address \<open>a\<close> in the store \<open>h\<close> gives the tree \<open>t\<close>, and \<open>drep\<close> says the
  same for dictionary circuits, entry by entry.
\<close>

inductive rep :: "cobject list \<Rightarrow> nat \<Rightarrow> circuit \<Rightarrow> bool"
  and rep_val :: "cobject list \<Rightarrow> nat pyval \<Rightarrow> circuit pyval \<Rightarrow> bool" where
  obj: "a < length h \<Longrightarrow> h ! a = CObject opn v \<Longrightarrow> rep_val h v t \<Longrightarrow> rep h a (Circuit opn t)"
| int: "rep_val h (PInt n) (PInt n)"
| bool: "rep_val h (PBool b) (PBool b)"
| str: "rep_val h (PStr s) (PStr s)"
| none: "rep_val h PNone PNone"
| list: "list_all2 (rep_val h) vs ts \<Longrightarrow> rep_val h (PList vs) (PList ts)"
| ref: "rep h a t \<Longrightarrow> rep_val h (PObj a) (PObj t)"

inductive drep :: "dobject list \<Rightarrow> nat \<Rightarrow> dcircuit \<Rightarrow> bool"
  and drep_val :: "dobject list \<Rightarrow> nat pyval \<Rightarrow> dcircuit pyval \<Rightarrow> bool" where
  obj: "a < length h \<Longrightarrow> list_all2 (rel_prod (=) (drep_val h)) (h ! a) kvs
          \<Longrightarrow> drep h a (DCircuit kvs)"
| int: "drep_val h (PInt n) (PInt n)"
| bool: "drep_val h (PBool b) (PBool b)"
| str: "drep_val h (PStr s) (PStr s)"
| none: "drep_val h PNone PNone"
| list: "list_all2 (drep_val h) vs ts \<Longrightarrow> drep_val h (PList vs) (PList ts)"
| ref: "drep h a t \<Longrightarrow> drep_val h (PObj a) (PObj t)"

subsection \<open>What an operation may do to the store\<close>

text \<open>
  \<open>extends h h'\<close>: every object of \<open>h\<close> is in \<open>h'\<close>, at the same address and with the
  same fields. \<open>fresh h r\<close>: \<open>r\<close> is not the address of an object of \<open>h\<close>.
\<close>

definition extends :: "'o list \<Rightarrow> 'o list \<Rightarrow> bool" where
  "extends h h' = (length h \<le> length h' \<and> take (length h) h' = h)"

definition fresh :: "'o list \<Rightarrow> nat \<Rightarrow> bool" where
  "fresh h r = (length h \<le> r)"

section \<open>Names in a graph\<close>

text \<open>
  \<open>all_names P g\<close>: every node of \<open>g\<close> and every end point of an edge of \<open>g\<close>
  satisfies \<open>P\<close>. It is what keeps the calls of \<^verbatim>\<open>union\<close> in the operators from
  raising: the names of the two graphs start differently.
\<close>

definition all_names :: "(string \<Rightarrow> bool) \<Rightarrow> graph \<Rightarrow> bool" where
  "all_names P g = (list_all P (nodes g) \<and> list_all (\<lambda>e. P (fst e) \<and> P (snd e)) (edges g))"

text \<open>
  What a \<^verbatim>\<open>Graph\<close> object always satisfies, and a \<^typ>\<open>graph\<close> record need not: the nodes
  are the keys of a dictionary, so no node is listed twice; an edge joins two nodes of
  the graph; and an edge is stored once, in one direction. \<open>rename_edge\<close> renames both
  ends of an edge, as \<^verbatim>\<open>relabel_nodes\<close> does.
\<close>

fun simple_edges :: "(string \<times> string) list \<Rightarrow> bool" where
  "simple_edges [] = True"
| "simple_edges (e # es) = (e \<notin> set es \<and> (snd e, fst e) \<notin> set es \<and> simple_edges es)"

definition wf_graph :: "graph \<Rightarrow> bool" where
  "wf_graph g =
     (distinct (nodes g)
      \<and> list_all (\<lambda>e. fst e \<in> set (nodes g) \<and> snd e \<in> set (nodes g)) (edges g)
      \<and> simple_edges (edges g))"


section \<open>Results of the exception monad\<close>

lemma then_res_Inr [simp]: "then_res (Inr x) f = f x"
  by (simp add: then_res_def)

lemma then_res_Inl [simp]: "then_res (Inl e) f = Inl e"
  by (simp add: then_res_def)

section \<open>Vectors\<close>

lemma tuple_eq_iff: "tuple_eq xs ys \<longleftrightarrow> xs = ys"
  by (induction xs ys rule: tuple_eq.induct) auto

text \<open>
  C3. For vectors \<open>v\<close> and \<open>w\<close>, \<^verbatim>\<open>v == w\<close> is \<^verbatim>\<open>True\<close> exactly when their coordinate
  tuples are equal; with \<^verbatim>\<open>v = vector(1,2)\<close> and \<^verbatim>\<open>w = vector(3,4)\<close> the pair
  \<^verbatim>\<open>(v == w, v == v)\<close> is \<^verbatim>\<open>(False, True)\<close>; and \<^verbatim>\<open>v == v\<close> is \<^verbatim>\<open>True\<close> for every vector.
\<close>

theorem vector_eq_coordinates:
  "(vector_eq v w \<longleftrightarrow> coordinates v = coordinates w)
   \<and> (vector_eq (vector_init [1, 2 :: int]) (vector_init [3, 4]),
      vector_eq (vector_init [1, 2 :: int]) (vector_init [1, 2])) = (False, True)
   \<and> vector_eq v v"
  by (simp add: vector_eq_def tuple_eq_iff vector_init_def)

section \<open>Bit vectors of integers\<close>

lemma equal_int_bits:
  assumes "x \<in> {0, 1}" and "y \<in> {0, 1}"
  shows "equal int_ops x y = Inr (if x = y then 1 else 0)"
  using assms by (auto simp: equal_def int_ops_def)

lemma map_res_equal_int_bits:
  assumes "set xs \<subseteq> {0, 1}" and "set ys \<subseteq> {0, 1}"
  shows "map_res (\<lambda>(x, y). equal int_ops x y) (zip xs ys)
           = Inr (map (\<lambda>(x, y). if x = y then 1 else 0) (zip xs ys))"
  using assms
proof (induction xs arbitrary: ys)
  case Nil
  then show ?case by simp
next
  case (Cons x xs)
  show ?case
  proof (cases ys)
    case Nil
    then show ?thesis by simp
  next
    case (Cons y ys')
    with Cons.prems have "x \<in> {0, 1}" "y \<in> {0, 1}" "set xs \<subseteq> {0, 1}" "set ys' \<subseteq> {0, 1}"
      by auto
    with Cons.IH [of ys'] Cons show ?thesis
      by (simp add: equal_int_bits)
  qed
qed

lemma reduce_from_int_bits:
  assumes "a \<in> {0, 1}" and "set es \<subseteq> {0, 1}"
  shows "reduce_from (\<lambda>e0 e1. op_and int_ops e0 e1) a es
           = Inr (if a = 1 \<and> (\<forall>e \<in> set es. e = 1) then 1 else 0)"
  using assms
proof (induction es arbitrary: a)
  case Nil
  then show ?case by auto
next
  case (Cons e es)
  from Cons.prems have e: "e \<in> {0, 1}" and es: "set es \<subseteq> {0, 1}" by auto
  from Cons.prems(1) e have ae: "a AND e \<in> {0, 1}" by auto
  have "(a AND e = 1) = (a = 1 \<and> e = 1)"
    using Cons.prems(1) e by auto
  with Cons.IH [OF ae es] show ?case
    by (simp add: int_ops_def)
qed

lemma all_equal_bits_iff:
  assumes "length xs = length ys"
  shows "(\<forall>e \<in> set (map (\<lambda>(x, y). if x = y then 1 else (0::int)) (zip xs ys)). e = 1)
           \<longleftrightarrow> xs = ys"
  using assms by (induction xs ys rule: list_induct2) auto

lemma equals_int_same_length:
  assumes "xs \<noteq> []" and "length xs = length ys"
    and "set xs \<subseteq> {0, 1}" and "set ys \<subseteq> {0, 1}"
  shows "equals int_ops xs ys = Inr (if xs = ys then 1 else 0)"
proof -
  let ?es = "map (\<lambda>(x, y). if x = y then 1 else (0::int)) (zip xs ys)"
  from assms(1,2) obtain x xs' y ys' where xs: "xs = x # xs'" and ys: "ys = y # ys'"
    by (cases xs; cases ys) auto
  have bits: "set ?es \<subseteq> {0, 1}" by (auto split: if_splits)
  have all: "(\<forall>e \<in> set ?es. e = 1) \<longleftrightarrow> xs = ys"
    using assms(2) by (rule all_equal_bits_iff)
  have "equals int_ops xs ys = reduce (\<lambda>e0 e1. op_and int_ops e0 e1) ?es"
    using assms(3,4) by (simp add: equals_def map_res_equal_int_bits)
  also have "\<dots> = reduce_from (\<lambda>e0 e1. op_and int_ops e0 e1) (hd ?es) (tl ?es)"
    by (simp add: xs ys)
  also have "\<dots> = Inr (if hd ?es = 1 \<and> (\<forall>e \<in> set (tl ?es). e = 1) then 1 else 0)"
    using bits by (intro reduce_from_int_bits) (auto simp: xs ys)
  also have "(hd ?es = 1 \<and> (\<forall>e \<in> set (tl ?es). e = 1)) \<longleftrightarrow> (\<forall>e \<in> set ?es. e = 1)"
    by (simp add: xs ys)
  finally show ?thesis
    using all by simp
qed

text \<open>
  C1. On two non-empty lists of the same length whose elements are the integers 0 or 1,
  the reduce-based \<^verbatim>\<open>equals\<close> returns 1 when the lists are equal element by element and 0
  otherwise; \<^verbatim>\<open>equals([0,1,1], [0,1,1])\<close> returns 1, the output the notebook prints.
\<close>

theorem equals_int_bit_vectors:
  "(xs \<noteq> [] \<and> length xs = length ys \<and> set xs \<subseteq> {0, 1} \<and> set ys \<subseteq> {0, 1}
      \<longrightarrow> equals int_ops xs ys = Inr (if xs = ys then 1 else 0))
   \<and> equals int_ops [0, 1, 1] [0, 1, 1] = Inr 1"
proof (intro conjI impI)
  assume "xs \<noteq> [] \<and> length xs = length ys \<and> set xs \<subseteq> {0, 1} \<and> set ys \<subseteq> {0, 1}"
  then show "equals int_ops xs ys = Inr (if xs = ys then 1 else 0)"
    by (intro equals_int_same_length) simp_all
next
  show "equals int_ops [0, 1, 1] [0, 1, 1] = Inr 1"
    by (simp add: equals_def equal_def int_ops_def)
qed

theorem equals_int_bit_vectors_witness:
  "[1, 0] \<noteq> [] \<and> length [1, 0 :: int] = length [1, 1 :: int]
   \<and> set [1, 0 :: int] \<subseteq> {0, 1} \<and> set [1, 1 :: int] \<subseteq> {0, 1}
   \<and> equals int_ops [1, 0] [1, 1] = Inr 0
   \<and> equals int_ops [0, 1, 1] [0, 1, 1] = Inr 1"
  using equals_int_bit_vectors [of "[1, 0]" "[1, 1]"] by simp

section \<open>Lists of unequal length and empty lists\<close>

lemma zip_take_min:
  "zip (take (min (length xs) (length ys)) xs) (take (min (length xs) (length ys)) ys)
     = zip xs ys"
proof (induction xs arbitrary: ys)
  case Nil
  then show ?case by simp
next
  case (Cons x xs)
  then show ?case by (cases ys) simp_all
qed

lemma equals_truncates:
  "equals ops xs ys
     = equals ops (take (min (length xs) (length ys)) xs)
         (take (min (length xs) (length ys)) ys)"
  by (simp add: equals_def zip_take_min)

lemma equals_empty_zip:
  assumes "zip xs ys = []"
  shows "equals ops xs ys = Inl TypeError"
  unfolding equals_def assms by simp

text \<open>
  C9. On lists of unequal length \<^verbatim>\<open>equals\<close> compares only the first
  \<^verbatim>\<open>min(len(xs), len(ys))\<close> elements, since \<^verbatim>\<open>zip\<close> stops at the shorter list: the
  result, for any operand class, is the result on the two lists cut to that length. On
  lists of bits, neither of them empty, that is 1 or 0 and no exception;
  \<^verbatim>\<open>equals([1], [1, 0])\<close> returns 1.
\<close>

theorem equals_unequal_length:
  "(length xs \<noteq> length ys \<longrightarrow>
      equals ops xs ys
        = equals ops (take (min (length xs) (length ys)) xs)
            (take (min (length xs) (length ys)) ys))
   \<and> (length bs \<noteq> length cs \<and> bs \<noteq> [] \<and> cs \<noteq> [] \<and> set bs \<subseteq> {0, 1} \<and> set cs \<subseteq> {0, 1} \<longrightarrow>
      equals int_ops bs cs
        = Inr (if take (min (length bs) (length cs)) bs = take (min (length bs) (length cs)) cs
               then 1 else 0))
   \<and> equals int_ops [1] [1, 0] = Inr 1"
proof (intro conjI impI)
  show "equals ops xs ys
          = equals ops (take (min (length xs) (length ys)) xs)
              (take (min (length xs) (length ys)) ys)"
    by (rule equals_truncates)
next
  assume h: "length bs \<noteq> length cs \<and> bs \<noteq> [] \<and> cs \<noteq> [] \<and> set bs \<subseteq> {0, 1} \<and> set cs \<subseteq> {0, 1}"
  let ?n = "min (length bs) (length cs)"
  have "equals int_ops (take ?n bs) (take ?n cs)
          = Inr (if take ?n bs = take ?n cs then 1 else 0)"
  proof (rule equals_int_same_length)
    show "take ?n bs \<noteq> []" using h by (cases bs; cases cs) auto
    show "length (take ?n bs) = length (take ?n cs)" by simp
    show "set (take ?n bs) \<subseteq> {0, 1}" using h set_take_subset [of ?n bs] by blast
    show "set (take ?n cs) \<subseteq> {0, 1}" using h set_take_subset [of ?n cs] by blast
  qed
  then show "equals int_ops bs cs = Inr (if take ?n bs = take ?n cs then 1 else 0)"
    using equals_truncates [of int_ops bs cs] by simp
next
  show "equals int_ops [1] [1, 0] = Inr 1"
    by (simp add: equals_def equal_def int_ops_def)
qed

theorem equals_unequal_length_witness:
  "length [1 :: int] \<noteq> length [1, 0 :: int]
   \<and> equals int_ops [1] [1, 0] = equals int_ops [1] [1]
   \<and> [1 :: int] \<noteq> [] \<and> [1, 0 :: int] \<noteq> []
   \<and> set [1 :: int] \<subseteq> {0, 1} \<and> set [1, 0 :: int] \<subseteq> {0, 1}
   \<and> equals int_ops [1] [1, 0] = Inr 1"
  using equals_unequal_length [of "[1 :: int]" "[1, 0 :: int]" int_ops "[1]" "[1, 0]"]
  by auto

section \<open>The graph operators on graphs that have a node\<close>

lemma all_names_add_node: "all_names P g \<Longrightarrow> P n \<Longrightarrow> all_names P (add_node g n)"
  by (simp add: all_names_def add_node_def)

lemma all_names_add_nodes_from:
  "all_names P g \<Longrightarrow> list_all P ns \<Longrightarrow> all_names P (add_nodes_from g ns)"
  unfolding add_nodes_from_def
  by (induction ns arbitrary: g) (simp_all add: all_names_add_node)

lemma all_names_add_edge:
  "all_names P g \<Longrightarrow> P (fst e) \<Longrightarrow> P (snd e) \<Longrightarrow> all_names P (add_edge g e)"
  by (simp add: all_names_def add_edge_def add_node_def Let_def)

lemma all_names_add_edges_from:
  "all_names P g \<Longrightarrow> list_all (\<lambda>e. P (fst e) \<and> P (snd e)) es
     \<Longrightarrow> all_names P (add_edges_from g es)"
  unfolding add_edges_from_def
  by (induction es arbitrary: g) (simp_all add: all_names_add_edge)

lemma all_names_empty: "all_names P empty_graph"
  by (simp add: all_names_def empty_graph_def)

lemma all_names_relabel: "all_names (\<lambda>n. \<exists>x. n = f x) (relabel_nodes f g)"
  unfolding relabel_nodes_def
  by (intro all_names_add_edges_from all_names_add_nodes_from all_names_empty)
     (auto simp: list_all_iff)

lemma all_names_init: "P s \<Longrightarrow> all_names P (gcircuit_init (Some s))"
  by (simp add: gcircuit_init_def add_nodes_from_def all_names_add_node all_names_empty)

lemma all_names_mono: "all_names P g \<Longrightarrow> (\<And>n. P n \<Longrightarrow> Q n) \<Longrightarrow> all_names Q g"
  by (auto simp: all_names_def list_all_iff)

lemma union_graph_names:
  assumes "all_names P (add_prefix G (fst r))" and "all_names Q (add_prefix H (snd r))"
    and "\<And>n. P n \<Longrightarrow> \<not> Q n"
  shows "\<exists>R. union_graph G H r = Inr R \<and> all_names (\<lambda>n. P n \<or> Q n) R"
proof -
  let ?G = "add_prefix G (fst r)" and ?H = "add_prefix H (snd r)"
  have disjoint: "\<not> list_ex (\<lambda>n. n \<in> set (nodes ?H)) (nodes ?G)"
    using assms by (auto simp: all_names_def list_all_iff list_ex_iff)
  have G: "all_names (\<lambda>n. P n \<or> Q n) ?G" and H: "all_names (\<lambda>n. P n \<or> Q n) ?H"
    using assms(1,2) by (auto intro: all_names_mono)
  have "all_names (\<lambda>n. P n \<or> Q n)
          (add_edges_from (add_edges_from
            (add_nodes_from (add_nodes_from empty_graph (nodes ?G)) (nodes ?H))
            (edges ?G)) (edges ?H))"
    using G H
    by (intro all_names_add_edges_from all_names_add_nodes_from all_names_empty)
       (simp_all add: all_names_def)
  with disjoint show ?thesis
    by (simp add: union_graph_def Let_def)
qed

text \<open>Adding nodes and edges to a graph that has a node keeps its first node.\<close>

lemma first_add_node:
  "nodes g \<noteq> [] \<Longrightarrow> nodes (add_node g n) \<noteq> [] \<and> hd (nodes (add_node g n)) = hd (nodes g)"
  by (simp add: add_node_def)

lemma first_add_nodes_from:
  "nodes g \<noteq> [] \<Longrightarrow>
     nodes (add_nodes_from g ns) \<noteq> [] \<and> hd (nodes (add_nodes_from g ns)) = hd (nodes g)"
  unfolding add_nodes_from_def
proof (induction ns arbitrary: g)
  case Nil
  then show ?case by simp
next
  case (Cons n ns)
  from first_add_node [OF Cons.prems, of n] Cons.IH [of "add_node g n"]
  show ?case by simp
qed

lemma first_add_edge:
  "nodes g \<noteq> [] \<Longrightarrow> nodes (add_edge g e) \<noteq> [] \<and> hd (nodes (add_edge g e)) = hd (nodes g)"
  by (simp add: add_edge_def add_node_def Let_def)

lemma first_add_edges_from:
  "nodes g \<noteq> [] \<Longrightarrow>
     nodes (add_edges_from g es) \<noteq> [] \<and> hd (nodes (add_edges_from g es)) = hd (nodes g)"
  unfolding add_edges_from_def
proof (induction es arbitrary: g)
  case Nil
  then show ?case by simp
next
  case (Cons e es)
  from first_add_edge [OF Cons.prems, of e] Cons.IH [of "add_edge g e"]
  show ?case by simp
qed

lemma nodes_init: "nodes (gcircuit_init (Some s)) = [s]" "edges (gcircuit_init (Some s)) = []"
  by (simp_all add: gcircuit_init_def add_nodes_from_def add_node_def empty_graph_def)

lemma first_union:
  assumes "union_graph G H r = Inr R" and "nodes (add_prefix G (fst r)) \<noteq> []"
  shows "nodes R \<noteq> [] \<and> hd (nodes R) = hd (nodes (add_prefix G (fst r)))"
proof -
  let ?G = "add_prefix G (fst r)" and ?H = "add_prefix H (snd r)"
  let ?R0 = "add_nodes_from empty_graph (nodes ?G)"
  obtain n ns where ns: "nodes ?G = n # ns" using assms(2) by (cases "nodes ?G") auto
  have "add_nodes_from empty_graph (n # ns) = add_nodes_from (add_node empty_graph n) ns"
    by (simp add: add_nodes_from_def)
  moreover have "nodes (add_node empty_graph n) = [n]"
    by (simp add: add_node_def empty_graph_def)
  ultimately have R0: "nodes ?R0 \<noteq> [] \<and> hd (nodes ?R0) = n"
    using first_add_nodes_from [of "add_node empty_graph n" ns] by (simp add: ns)
  have R: "R = add_edges_from (add_edges_from (add_nodes_from ?R0 (nodes ?H)) (edges ?G)) (edges ?H)"
    using assms(1) by (simp add: union_graph_def Let_def split: if_splits)
  from R0 first_add_nodes_from [of ?R0 "nodes ?H"]
  have 1: "nodes (add_nodes_from ?R0 (nodes ?H)) \<noteq> [] \<and> hd (nodes (add_nodes_from ?R0 (nodes ?H))) = n"
    by simp
  from 1 first_add_edges_from [of "add_nodes_from ?R0 (nodes ?H)" "edges ?G"]
  have 2: "nodes (add_edges_from (add_nodes_from ?R0 (nodes ?H)) (edges ?G)) \<noteq> []
     \<and> hd (nodes (add_edges_from (add_nodes_from ?R0 (nodes ?H)) (edges ?G))) = n"
    by simp
  from 2 first_add_edges_from [of "add_edges_from (add_nodes_from ?R0 (nodes ?H)) (edges ?G)" "edges ?H"]
  show ?thesis by (simp add: R ns)
qed

lemma has_edge_add_edge: "has_edge (add_edge g (u, v)) u v"
  by (auto simp: add_edge_def has_edge_def Let_def)

lemma has_edge_add_edge_keeps: "has_edge g u v \<Longrightarrow> has_edge (add_edge g e) u v"
  by (auto simp: add_edge_def has_edge_def add_node_def Let_def)

lemma relabel_init: "relabel_nodes f (gcircuit_init (Some s)) = gcircuit_init (Some (f s))"
  by (simp add: relabel_nodes_def gcircuit_init_def add_nodes_from_def add_edges_from_def
      add_node_def empty_graph_def)

lemma all_names_prefix: "all_names (\<lambda>n. \<exists>x. n = p @ x) (add_prefix g (Some p))"
  unfolding add_prefix_def option.case by (rule all_names_relabel)

lemma first_node_nonempty: "nodes g \<noteq> [] \<Longrightarrow> first_node g = Inr (hd (nodes g))"
  by (cases "nodes g") (simp_all add: first_node_def)


lemma gcircuit_binary_returns:
  assumes self: "nodes self \<noteq> []" and other: "nodes other \<noteq> []"
    and label: "\<And>x. label \<noteq> ''l-'' @ x" "\<And>x. label \<noteq> ''r-'' @ x"
  shows "\<exists>g. gcircuit_binary label self other = Inr g \<and> hd (nodes g) = label
           \<and> has_edge g label (''l-'' @ hd (nodes self))
           \<and> has_edge g label (''r-'' @ hd (nodes other))"
proof -
  let ?P = "\<lambda>n. \<exists>x. n = ''l-'' @ x" and ?Q = "\<lambda>n. \<exists>x. n = ''r-'' @ x"
  have "\<exists>R. union_graph self other (Some ''l-'', Some ''r-'') = Inr R
          \<and> all_names (\<lambda>n. ?P n \<or> ?Q n) R"
  proof (rule union_graph_names)
    show "all_names ?P (add_prefix self (fst (Some ''l-'', Some ''r-'')))"
      unfolding fst_conv by (rule all_names_prefix)
    show "all_names ?Q (add_prefix other (snd (Some ''l-'', Some ''r-'')))"
      unfolding snd_conv by (rule all_names_prefix)
    show "\<And>n. ?P n \<Longrightarrow> \<not> ?Q n" by auto
  qed
  then obtain lr where lr: "union_graph self other (Some ''l-'', Some ''r-'') = Inr lr"
    and lr_names: "all_names (\<lambda>n. ?P n \<or> ?Q n) lr" by blast
  have "\<exists>R. union_graph (gcircuit_init (Some label)) lr (None, None) = Inr R
          \<and> all_names (\<lambda>n. n = label \<or> (?P n \<or> ?Q n)) R"
    using lr_names label
    by (intro union_graph_names) (auto simp: add_prefix_def all_names_init)
  then obtain c where c: "union_graph (gcircuit_init (Some label)) lr (None, None) = Inr c"
    by blast
  from first_union [OF c] have c1: "nodes c \<noteq> []" "hd (nodes c) = label"
    by (simp_all add: add_prefix_def nodes_init)
  let ?e1 = "(label, ''l-'' @ hd (nodes self))" and ?e2 = "(label, ''r-'' @ hd (nodes other))"
  let ?g = "add_edges_from c [?e1, ?e2]"
  have res: "gcircuit_binary label self other = Inr ?g"
    by (simp add: gcircuit_binary_def lr c first_node_nonempty self other)
  have "hd (nodes ?g) = label"
    using first_add_edges_from [OF c1(1), of "[?e1, ?e2]"] c1(2) by simp
  moreover have "has_edge ?g label (''l-'' @ hd (nodes self))"
    by (simp add: add_edges_from_def has_edge_add_edge has_edge_add_edge_keeps)
  moreover have "has_edge ?g label (''r-'' @ hd (nodes other))"
    by (simp add: add_edges_from_def has_edge_add_edge)
  ultimately show ?thesis using res by simp
qed

lemma gcircuit_binary_empty:
  "nodes self = [] \<or> nodes other = [] \<Longrightarrow> \<exists>e. gcircuit_binary label self other = Inl e"
  by (auto simp: gcircuit_binary_def then_res_def first_node_def split: sum.splits list.splits)

lemma gcircuit_rsub_returns:
  assumes self: "nodes self \<noteq> []"
  shows "\<exists>g. gcircuit_rsub self (PInt 1) = Inr g \<and> hd (nodes g) = neg
           \<and> has_edge g neg (''n-'' @ hd (nodes self))"
proof -
  let ?Q = "\<lambda>n. \<exists>x. n = ''n-'' @ x"
  have "\<exists>R. union_graph (gcircuit_init (Some neg)) self (Some [], Some ''n-'') = Inr R
          \<and> all_names (\<lambda>n. n = neg \<or> ?Q n) R"
  proof (rule union_graph_names)
    show "all_names (\<lambda>n. n = neg) (add_prefix (gcircuit_init (Some neg)) (fst (Some [], Some ''n-'')))"
      by (simp add: add_prefix_def relabel_init all_names_init)
    show "all_names ?Q (add_prefix self (snd (Some [], Some ''n-'')))"
      unfolding snd_conv by (rule all_names_prefix)
    show "\<And>n. n = neg \<Longrightarrow> \<not> ?Q n" by (simp add: neg_def)
  qed
  then obtain c where c: "union_graph (gcircuit_init (Some neg)) self (Some [], Some ''n-'') = Inr c"
    by blast
  from first_union [OF c] have c1: "nodes c \<noteq> []" "hd (nodes c) = neg"
    by (simp_all add: add_prefix_def relabel_init nodes_init)
  let ?e = "(neg, ''n-'' @ hd (nodes self))"
  let ?g = "add_edges_from c [?e]"
  have res: "gcircuit_rsub self (PInt 1) = Inr ?g"
    by (simp add: gcircuit_rsub_def not_int_one_def c first_node_nonempty self)
  have "hd (nodes ?g) = neg"
    using first_add_edges_from [OF c1(1), of "[?e]"] c1(2) by simp
  moreover have "has_edge ?g neg (''n-'' @ hd (nodes self))"
    by (simp add: add_edges_from_def has_edge_add_edge)
  ultimately show ?thesis using res by simp
qed


section \<open>Graphs as NetworkX keeps them\<close>













text \<open>
  The constructor, the methods of \<^verbatim>\<open>Graph\<close> and the operators only ever produce such
  graphs.
\<close>

lemma wf_empty_graph: "wf_graph empty_graph"
  by (simp add: wf_graph_def empty_graph_def)

lemma wf_add_node: "wf_graph g \<Longrightarrow> wf_graph (add_node g n)"
  by (auto simp: wf_graph_def add_node_def list_all_iff)

lemma simple_edges_snoc:
  "simple_edges (es @ [e]) \<longleftrightarrow> simple_edges es \<and> e \<notin> set es \<and> (snd e, fst e) \<notin> set es"
  by (induction es) auto

lemma wf_add_edge:
  assumes "wf_graph g"
  shows "wf_graph (add_edge g e)"
proof -
  let ?g = "add_node (add_node g (fst e)) (snd e)"
  have g': "wf_graph ?g" using assms by (intro wf_add_node)
  have ends: "fst e \<in> set (nodes ?g)" "snd e \<in> set (nodes ?g)"
    by (auto simp: add_node_def)
  show ?thesis
  proof (cases "has_edge ?g (fst e) (snd e)")
    case True
    with g' show ?thesis by (simp add: add_edge_def Let_def)
  next
    case False
    then have "e \<notin> set (edges ?g)" "(snd e, fst e) \<notin> set (edges ?g)"
      by (simp_all add: has_edge_def)
    with g' ends have "wf_graph (?g\<lparr>edges := edges ?g @ [e]\<rparr>)"
      by (simp add: wf_graph_def simple_edges_snoc)
    with False show ?thesis by (simp add: add_edge_def Let_def)
  qed
qed

lemma wf_add_nodes_from: "wf_graph g \<Longrightarrow> wf_graph (add_nodes_from g ns)"
  unfolding add_nodes_from_def
  by (induction ns arbitrary: g) (simp_all add: wf_add_node)

lemma wf_add_edges_from: "wf_graph g \<Longrightarrow> wf_graph (add_edges_from g es)"
  unfolding add_edges_from_def
  by (induction es arbitrary: g) (simp_all add: wf_add_edge)


lemma wf_union_graph: "union_graph G H r = Inr R \<Longrightarrow> wf_graph R"
  by (auto simp: union_graph_def Let_def wf_add_edges_from wf_add_nodes_from wf_empty_graph
      split: if_splits)

lemma wf_gcircuit_binary:
  assumes "gcircuit_binary label self other = Inr c"
  shows "wf_graph c"
proof -
  from assms obtain lr u where
    "union_graph (gcircuit_init (Some label)) lr (None, None) = Inr u"
    and c: "\<exists>es. c = add_edges_from u es"
    by (auto simp: gcircuit_binary_def then_res_def split: sum.splits)
  then have "wf_graph u" by (auto dest: wf_union_graph)
  with c show ?thesis by (auto simp: wf_add_edges_from)
qed


section \<open>The guard of \<^verbatim>\<open>__rsub__\<close>\<close>







lemma circuit_rsub_one: "circuit_rsub c (PInt 1) = Inr (Circuit ''not'' (PList [PObj c]))"
  by (simp add: circuit_rsub_def circuit_init_def not_int_one_def)


subsection \<open>The expression \<^verbatim>\<open>v - c\<close>\<close>










section \<open>The first variant builds operation-tagged trees\<close>

lemma op_tagged_bit: "b = 0 \<or> b = 1 \<Longrightarrow> op_tagged_tree (circuit_init ''bit'' (PInt b))"
  by (auto simp: circuit_init_def node_ok_def)

lemma op_tagged_default: "op_tagged_tree (circuit_init ''bit'' PNone)"
  by (simp add: circuit_init_def node_ok_def)

lemma op_tagged_or:
  "op_tagged_tree c \<Longrightarrow> op_tagged_tree d \<Longrightarrow> op_tagged_tree (circuit_or c (PObj d))"
  by (simp add: circuit_or_def circuit_init_def node_ok_def)

lemma op_tagged_and:
  "op_tagged_tree c \<Longrightarrow> op_tagged_tree d \<Longrightarrow> op_tagged_tree (circuit_and c (PObj d))"
  by (simp add: circuit_and_def circuit_init_def node_ok_def)

lemma op_tagged_rsub:
  "op_tagged_tree c \<Longrightarrow> circuit_rsub c (PInt 1) = Inr n \<Longrightarrow> op_tagged_tree n"
  by (auto simp: circuit_rsub_def circuit_init_def node_ok_def split: if_splits)

lemma built_op_tagged: "built c \<Longrightarrow> op_tagged_tree c"
proof (induction rule: built.induct)
  case (bit b)
  then show ?case by (rule op_tagged_bit)
next
  case bit_default
  show ?case by (rule op_tagged_default)
next
  case (disj c d)
  then show ?case by (simp add: op_tagged_or)
next
  case (conj c d)
  then show ?case by (simp add: op_tagged_and)
next
  case (negation c n)
  then show ?case by (simp add: op_tagged_rsub)
qed

text \<open>
  What \<open>op_tagged_tree\<close> says of the root: the \<^verbatim>\<open>op\<close> is one of the four tags, and the
  \<^verbatim>\<open>args\<close> are the empty list or a bit for \<^verbatim>\<open>bit\<close>, two trees for \<^verbatim>\<open>or\<close> and \<^verbatim>\<open>and\<close>, one
  tree for \<^verbatim>\<open>not\<close>.
\<close>

lemma sub_ok_map:
  "sub_ok (map_pyval f v) \<longleftrightarrow> (\<exists>c. v = PObj c \<and> f c)"
  by (cases v) auto

lemma op_tagged_tree_root:
  "op_tagged_tree c \<longleftrightarrow>
     (op c = ''bit'' \<and> (args c = PList [] \<or> args c = PInt 0 \<or> args c = PInt 1)
      \<or> (op c = ''or'' \<or> op c = ''and'')
          \<and> (\<exists>a b. args c = PList [PObj a, PObj b] \<and> op_tagged_tree a \<and> op_tagged_tree b)
      \<or> op c = ''not'' \<and> (\<exists>a. args c = PList [PObj a] \<and> op_tagged_tree a))"
proof (cases c)
  case (Circuit opn a)
  have two: "(\<exists>vs. a = PList vs \<and> length vs = 2 \<and> list_all sub_ok (map (map_pyval op_tagged_tree) vs))
      \<longleftrightarrow> (\<exists>x y. a = PList [PObj x, PObj y] \<and> op_tagged_tree x \<and> op_tagged_tree y)"
    by (auto simp: length_Suc_conv sub_ok_map numeral_2_eq_2)
  have one: "(\<exists>vs. a = PList vs \<and> length vs = 1 \<and> list_all sub_ok (map (map_pyval op_tagged_tree) vs))
      \<longleftrightarrow> (\<exists>x. a = PList [PObj x] \<and> op_tagged_tree x)"
    by (auto simp: length_Suc_conv sub_ok_map)
  have "op_tagged_tree c \<longleftrightarrow>
      (opn = ''bit'' \<and> (a = PList [] \<or> a = PInt 0 \<or> a = PInt 1)
       \<or> (opn = ''or'' \<or> opn = ''and'')
           \<and> (\<exists>vs. a = PList vs \<and> length vs = 2 \<and> list_all sub_ok (map (map_pyval op_tagged_tree) vs))
       \<or> opn = ''not''
           \<and> (\<exists>vs. a = PList vs \<and> length vs = 1 \<and> list_all sub_ok (map (map_pyval op_tagged_tree) vs)))"
    unfolding Circuit by (cases a) (auto simp: node_ok_def)
  then show ?thesis
    unfolding two one by (simp add: Circuit)
qed

text \<open>
  C5. Every value the first variant builds from bit constants with \<^verbatim>\<open>|\<close>, \<^verbatim>\<open>&\<close> and
  \<^verbatim>\<open>1 -\<close> is an operation-tagged tree: at every node the \<^verbatim>\<open>op\<close> is \<^verbatim>\<open>bit\<close>, \<^verbatim>\<open>or\<close>,
  \<^verbatim>\<open>and\<close> or \<^verbatim>\<open>not\<close>, and the \<^verbatim>\<open>args\<close> are two sub-circuits for \<^verbatim>\<open>or\<close> and \<^verbatim>\<open>and\<close>, one
  for \<^verbatim>\<open>not\<close>, and the empty list or a bit for \<^verbatim>\<open>bit\<close>. Each operator applied to such
  trees gives such a tree.
\<close>

theorem built_is_op_tagged_tree:
  "(built c \<longrightarrow> op_tagged_tree c)
   \<and> (op_tagged_tree c \<and> op_tagged_tree d \<longrightarrow>
        op_tagged_tree (circuit_or c (PObj d)) \<and> op_tagged_tree (circuit_and c (PObj d))
        \<and> (\<exists>n. circuit_rsub c (PInt 1) = Inr n \<and> op_tagged_tree n))"
proof (intro conjI impI)
  assume "built c"
  then show "op_tagged_tree c" by (rule built_op_tagged)
next
  assume h: "op_tagged_tree c \<and> op_tagged_tree d"
  then show "op_tagged_tree (circuit_or c (PObj d))" by (simp add: op_tagged_or)
  from h show "op_tagged_tree (circuit_and c (PObj d))" by (simp add: op_tagged_and)
  from h show "\<exists>n. circuit_rsub c (PInt 1) = Inr n \<and> op_tagged_tree n"
    using op_tagged_rsub [of c] by (simp add: circuit_rsub_one)
qed

theorem built_is_op_tagged_tree_witness:
  "built (circuit_or (circuit_init ''bit'' (PInt 0)) (PObj (circuit_init ''bit'' (PInt 1))))
   \<and> op_tagged_tree (circuit_or (circuit_init ''bit'' (PInt 0)) (PObj (circuit_init ''bit'' (PInt 1))))
   \<and> op_tagged_tree (circuit_init ''bit'' PNone)
   \<and> op_tagged_tree (circuit_and
        (circuit_or (circuit_init ''bit'' (PInt 0)) (PObj (circuit_init ''bit'' (PInt 1))))
        (PObj (circuit_init ''bit'' PNone)))
   \<and> \<not> op_tagged_tree (circuit_init ''xor'' PNone)"
proof -
  let ?c = "circuit_or (circuit_init ''bit'' (PInt 0)) (PObj (circuit_init ''bit'' (PInt 1)))"
  let ?d = "circuit_init ''bit'' PNone"
  have b: "built ?c"
    by (intro built.disj built.bit) simp_all
  have d: "built ?d" by (rule built.bit_default)
  have 1: "op_tagged_tree ?c"
    using built_is_op_tagged_tree [of ?c ?d] b by simp
  have 2: "op_tagged_tree ?d"
    using built_is_op_tagged_tree [of ?d ?d] d by simp
  have 3: "op_tagged_tree (circuit_and ?c (PObj ?d))"
    using built_is_op_tagged_tree [of ?c ?d] 1 2 by simp
  have 4: "\<not> op_tagged_tree (circuit_init ''xor'' PNone)"
    by (simp add: circuit_init_def node_ok_def)
  from b 1 2 3 4 show ?thesis by simp
qed

section \<open>The second variant mirrors the first\<close>

lemma as_int_map_pyval [simp]: "as_int (map_pyval f v) = as_int v"
  by (cases v) simp_all

lemma not_int_one_map_pyval [simp]: "not_int_one (map_pyval f v) = not_int_one v"
  by (simp add: not_int_one_def)

lemma to_dict_or: "to_dict (circuit_or c v) = dcircuit_or (to_dict c) (map_pyval to_dict v)"
  by (simp add: circuit_or_def dcircuit_or_def circuit_init_def dcircuit_init_def)

lemma to_dict_and: "to_dict (circuit_and c v) = dcircuit_and (to_dict c) (map_pyval to_dict v)"
  by (simp add: circuit_and_def dcircuit_and_def circuit_init_def dcircuit_init_def)

lemma to_dict_rsub:
  "map_sum id to_dict (circuit_rsub c v) = dcircuit_rsub (to_dict c) (map_pyval to_dict v)"
  by (simp add: circuit_rsub_def dcircuit_rsub_def circuit_init_def dcircuit_init_def)

lemma to_dict_bit: "to_dict (circuit_bit b) = dcircuit_bit b"
  by (simp add: circuit_bit_def dcircuit_bit_def circuit_init_def dcircuit_init_def)

lemma build_related:
  "\<exists>t. build circuit_ops circuit_bit e = Inr t
     \<and> build dcircuit_ops dcircuit_bit e = Inr (to_dict t)"
proof (induction e)
  case (EBit b)
  then show ?case by (simp add: to_dict_bit)
next
  case (EOr e1 e2)
  then show ?case
    by (auto simp: circuit_ops_def dcircuit_ops_def to_dict_or)
next
  case (EAnd e1 e2)
  then show ?case
    by (auto simp: circuit_ops_def dcircuit_ops_def to_dict_and)
next
  case (ENot e)
  then obtain t where t: "build circuit_ops circuit_bit e = Inr t"
    "build dcircuit_ops dcircuit_bit e = Inr (to_dict t)" by blast
  have "dcircuit_rsub (to_dict t) (PInt 1) = map_sum id to_dict (circuit_rsub t (PInt 1))"
    using to_dict_rsub [of t "PInt 1"] by simp
  then show ?case using t
    by (simp add: circuit_ops_def dcircuit_ops_def circuit_rsub_one)
qed

text \<open>
  C8. Every expression over bit constants, \<^verbatim>\<open>|\<close>, \<^verbatim>\<open>&\<close> and \<^verbatim>\<open>1 -\<close> evaluates in both
  variants, and the dictionary of the second variant is the image of the tree of the
  first under the mapping \<^verbatim>\<open>circuit(op, args)\<close> to \<^verbatim>\<open>{op: args}\<close>; the mapping commutes
  with the bit constants and with each of the three operators, so the two trees
  correspond at every node.
\<close>

theorem variants_related:
  "(\<exists>t. build circuit_ops circuit_bit e = Inr t
       \<and> build dcircuit_ops dcircuit_bit e = Inr (to_dict t))
   \<and> to_dict (circuit_bit b) = dcircuit_bit b
   \<and> to_dict (circuit_or c v) = dcircuit_or (to_dict c) (map_pyval to_dict v)
   \<and> to_dict (circuit_and c v) = dcircuit_and (to_dict c) (map_pyval to_dict v)
   \<and> map_sum id to_dict (circuit_rsub c v) = dcircuit_rsub (to_dict c) (map_pyval to_dict v)"
  using build_related [of e] to_dict_bit [of b] to_dict_or [of c v] to_dict_and [of c v]
    to_dict_rsub [of c v]
  by blast

section \<open>The printed examples of the second and third variant\<close>

text \<open>
  C6. With \<^verbatim>\<open>c0 = circuit({"bit": 0})\<close> and \<^verbatim>\<open>c1 = circuit({"bit": 1})\<close> of the dictionary
  variant, \<^verbatim>\<open>equals([c0, c1], [c0, c1])\<close> returns a dictionary tree, and \<^verbatim>\<open>json.dumps\<close>
  of it is the string the notebook prints.
\<close>

theorem dumps_equals_example:
  \<open>\<exists>t. equals dcircuit_ops
          [dcircuit_init [(''bit'', PInt 0)], dcircuit_init [(''bit'', PInt 1)]]
          [dcircuit_init [(''bit'', PInt 0)], dcircuit_init [(''bit'', PInt 1)]] = Inr t
     \<and> dumps t = ''{"and": [{"or": [{"and": [{"bit": 0}, {"bit": 0}]}, {"and": [{"not": [{"bit": 0}]}, {"not": [{"bit": 0}]}]}]}, {"or": [{"and": [{"bit": 1}, {"bit": 1}]}, {"and": [{"not": [{"bit": 1}]}, {"not": [{"bit": 1}]}]}]}]}''\<close>
  by (simp add: equals_def equal_def dcircuit_ops_def dcircuit_and_def dcircuit_or_def
      dcircuit_rsub_def dcircuit_init_def not_int_one_def dumps_items_def json_string_def
      json_escape_char_def str_int_def digit_char_def)



section \<open>Empty lists of any operand class\<close>

text \<open>
  C10. \<^verbatim>\<open>equals\<close> on two lists whose \<^verbatim>\<open>zip\<close> is empty raises \<^verbatim>\<open>TypeError\<close>, whatever the
  class of the operands: the comprehension gives the empty list and \<^verbatim>\<open>reduce\<close> has no
  initial value. So does \<^verbatim>\<open>equals([], [])\<close> for integers and for each of the three
  variants.
\<close>

theorem equals_empty_raises:
  "(zip xs ys = [] \<longrightarrow> equals ops xs ys = Inl TypeError)
   \<and> equals int_ops [] [] = Inl TypeError
   \<and> equals circuit_ops [] [] = Inl TypeError
   \<and> equals dcircuit_ops [] [] = Inl TypeError
   \<and> equals gcircuit_ops [] [] = Inl TypeError"
  by (simp add: equals_empty_zip)

theorem equals_empty_raises_witness:
  "zip ([] :: int list) [1 :: int] = [] \<and> equals int_ops [] [1] = Inl TypeError"
  using equals_empty_raises [of "[] :: int list" "[1 :: int]" int_ops] by simp

section \<open>Operators and the store\<close>

lemma circuit_or_s_eq:
  "circuit_or_s h c d = (h @ [CObject ''or'' (PList [PObj c, d])], length h)"
  by (simp add: circuit_or_s_def circuit_init_s_def alloc_def)

lemma circuit_and_s_eq:
  "circuit_and_s h c d = (h @ [CObject ''and'' (PList [PObj c, d])], length h)"
  by (simp add: circuit_and_s_def circuit_init_s_def alloc_def)

lemma circuit_rsub_s_eq:
  "circuit_rsub_s h c (PInt 1) = (h @ [CObject ''not'' (PList [PObj c])], Inr (length h))"
  by (simp add: circuit_rsub_s_def circuit_init_s_def alloc_def not_int_one_def)

lemma dcircuit_or_s_eq:
  "dcircuit_or_s h c d = (h @ [[(''or'', PList [PObj c, d])]], length h)"
  by (simp add: dcircuit_or_s_def dcircuit_init_s_def alloc_def)

lemma dcircuit_and_s_eq:
  "dcircuit_and_s h c d = (h @ [[(''and'', PList [PObj c, d])]], length h)"
  by (simp add: dcircuit_and_s_def dcircuit_init_s_def alloc_def)

lemma dcircuit_rsub_s_eq:
  "dcircuit_rsub_s h c (PInt 1) = (h @ [[(''not'', PList [PObj c])]], Inr (length h))"
  by (simp add: dcircuit_rsub_s_def dcircuit_init_s_def alloc_def not_int_one_def)

lemma gcircuit_binary_s_frame:
  "take (length h) (fst (gcircuit_binary_s label h self other)) = h"
  by (simp add: gcircuit_binary_s_def alloc_def Let_def split: sum.splits)

lemma gcircuit_rsub_s_frame:
  "take (length h) (fst (gcircuit_rsub_s h self other)) = h"
  by (simp add: gcircuit_rsub_s_def alloc_def Let_def split: sum.splits)

lemma gcircuit_binary_s_result:
  assumes "self < length h" and "other < length h"
  shows "case gcircuit_binary label (h ! self) (h ! other) of
           Inl e \<Rightarrow> snd (gcircuit_binary_s label h self other) = Inl e
         | Inr g \<Rightarrow> snd (gcircuit_binary_s label h self other) = Inr (length h + 2)
                  \<and> length (fst (gcircuit_binary_s label h self other)) = length h + 3
                  \<and> fst (gcircuit_binary_s label h self other) ! (length h + 2) = g"
  using assms
  by (simp add: gcircuit_binary_s_def gcircuit_binary_def alloc_def Let_def nth_append
      then_res_def split: sum.splits)

lemma gcircuit_rsub_s_result:
  assumes "self < length h"
  shows "case gcircuit_rsub (h ! self) v of
           Inl e \<Rightarrow> snd (gcircuit_rsub_s h self v) = Inl e
         | Inr g \<Rightarrow> snd (gcircuit_rsub_s h self v) = Inr (length h + 1)
                  \<and> length (fst (gcircuit_rsub_s h self v)) = length h + 2
                  \<and> fst (gcircuit_rsub_s h self v) ! (length h + 1) = g"
  using assms
  by (simp add: gcircuit_rsub_s_def gcircuit_rsub_def alloc_def Let_def nth_append
      then_res_def split: sum.splits)

lemma extends_append: "extends h (h @ xs)"
  by (simp add: extends_def)

lemma extends_take: "take (length h) h' = h \<Longrightarrow> extends h h'"
  unfolding extends_def by (metis length_take min.cobounded1 min.commute)

lemma fresh_length: "fresh h (length h)"
  by (simp add: fresh_def)

lemma circuit_rsub_s_frame: "extends h (fst (circuit_rsub_s h c v))"
  by (simp add: circuit_rsub_s_def circuit_init_s_def alloc_def extends_def)

lemma dcircuit_rsub_s_frame: "extends h (fst (dcircuit_rsub_s h c v))"
  by (simp add: dcircuit_rsub_s_def dcircuit_init_s_def alloc_def extends_def)

lemma gcircuit_binary_s_returns:
  assumes "a < length g" and "b < length g" and "nodes (g ! a) \<noteq> []" and "nodes (g ! b) \<noteq> []"
    and "\<And>x. label \<noteq> ''l-'' @ x" and "\<And>x. label \<noteq> ''r-'' @ x"
  shows "\<exists>r. snd (gcircuit_binary_s label g a b) = Inr r \<and> fresh g r
           \<and> r < length (fst (gcircuit_binary_s label g a b))
           \<and> gcircuit_binary label (g ! a) (g ! b) = Inr (fst (gcircuit_binary_s label g a b) ! r)"
proof -
  from gcircuit_binary_returns [OF assms(3,4,5,6)]
  obtain c where c: "gcircuit_binary label (g ! a) (g ! b) = Inr c" by blast
  from gcircuit_binary_s_result [OF assms(1,2), of label] c
  have "snd (gcircuit_binary_s label g a b) = Inr (length g + 2)"
    and "length (fst (gcircuit_binary_s label g a b)) = length g + 3"
    and "fst (gcircuit_binary_s label g a b) ! (length g + 2) = c"
    by simp_all
  with c show ?thesis by (simp add: fresh_def)
qed

lemma gcircuit_rsub_s_returns:
  assumes "a < length g" and "nodes (g ! a) \<noteq> []"
  shows "\<exists>r. snd (gcircuit_rsub_s g a (PInt 1)) = Inr r \<and> fresh g r
           \<and> r < length (fst (gcircuit_rsub_s g a (PInt 1)))
           \<and> gcircuit_rsub (g ! a) (PInt 1) = Inr (fst (gcircuit_rsub_s g a (PInt 1)) ! r)"
proof -
  from gcircuit_rsub_returns [OF assms(2)]
  obtain c where c: "gcircuit_rsub (g ! a) (PInt 1) = Inr c" by blast
  from gcircuit_rsub_s_result [OF assms(1), of "PInt 1"] c
  have "snd (gcircuit_rsub_s g a (PInt 1)) = Inr (length g + 1)"
    and "length (fst (gcircuit_rsub_s g a (PInt 1))) = length g + 2"
    and "fst (gcircuit_rsub_s g a (PInt 1)) ! (length g + 1) = c"
    by simp_all
  with c show ?thesis by (simp add: fresh_def)
qed

lemma vee_not_prefixed: "vee \<noteq> ''l-'' @ x" "vee \<noteq> ''r-'' @ x"
  by (simp_all add: vee_def)

lemma wedge_not_prefixed: "wedge \<noteq> ''l-'' @ x" "wedge \<noteq> ''r-'' @ x"
  by (simp_all add: wedge_def)

text \<open>
  C4, as stated for every two circuits, fails on a graph circuit without nodes: \<^verbatim>\<open>circuit() | circuit('x')\<close>
  raises \<^verbatim>\<open>IndexError\<close> and returns no circuit.
\<close>

theorem or_empty_graph_raises:
  "snd (gcircuit_or_s [gcircuit_init None, gcircuit_init (Some ''x'')] 0 1) = Inl IndexError"
  by code_simp

text \<open>
  C4 (amended). In the first two variants \<^verbatim>\<open>c | d\<close>, \<^verbatim>\<open>c & d\<close> and \<^verbatim>\<open>1 - c\<close> return a
  new object, at an address the store did not have, holding the tag and the references
  to the operands, and every object of the store, the operands among them, keeps its
  fields. In the graph variant every object of the store keeps its nodes and edges
  whatever the outcome, and when the operands have a node each the operator returns a
  new graph object, the graph that the operator computes from the operands' graphs.
\<close>

theorem operators_frame:
  "(extends h (fst (circuit_or_s h c v)) \<and> fresh h (snd (circuit_or_s h c v))
      \<and> fst (circuit_or_s h c v) ! snd (circuit_or_s h c v) = CObject ''or'' (PList [PObj c, v]))
   \<and> (extends h (fst (circuit_and_s h c v)) \<and> fresh h (snd (circuit_and_s h c v))
      \<and> fst (circuit_and_s h c v) ! snd (circuit_and_s h c v) = CObject ''and'' (PList [PObj c, v]))
   \<and> (extends h (fst (circuit_rsub_s h c v))
      \<and> (\<exists>r. snd (circuit_rsub_s h c (PInt 1)) = Inr r \<and> fresh h r
            \<and> fst (circuit_rsub_s h c (PInt 1)) ! r = CObject ''not'' (PList [PObj c])))
   \<and> (extends k (fst (dcircuit_or_s k c v)) \<and> fresh k (snd (dcircuit_or_s k c v))
      \<and> fst (dcircuit_or_s k c v) ! snd (dcircuit_or_s k c v) = [(''or'', PList [PObj c, v])])
   \<and> (extends k (fst (dcircuit_and_s k c v)) \<and> fresh k (snd (dcircuit_and_s k c v))
      \<and> fst (dcircuit_and_s k c v) ! snd (dcircuit_and_s k c v) = [(''and'', PList [PObj c, v])])
   \<and> (extends k (fst (dcircuit_rsub_s k c v))
      \<and> (\<exists>r. snd (dcircuit_rsub_s k c (PInt 1)) = Inr r \<and> fresh k r
            \<and> fst (dcircuit_rsub_s k c (PInt 1)) ! r = [(''not'', PList [PObj c])]))
   \<and> extends g (fst (gcircuit_or_s g a b))
   \<and> extends g (fst (gcircuit_and_s g a b))
   \<and> extends g (fst (gcircuit_rsub_s g a u))
   \<and> (a < length g \<and> b < length g \<and> nodes (g ! a) \<noteq> [] \<and> nodes (g ! b) \<noteq> [] \<longrightarrow>
        (\<exists>r. snd (gcircuit_or_s g a b) = Inr r \<and> fresh g r
            \<and> r < length (fst (gcircuit_or_s g a b))
            \<and> gcircuit_or (g ! a) (g ! b) = Inr (fst (gcircuit_or_s g a b) ! r))
        \<and> (\<exists>r. snd (gcircuit_and_s g a b) = Inr r \<and> fresh g r
            \<and> r < length (fst (gcircuit_and_s g a b))
            \<and> gcircuit_and (g ! a) (g ! b) = Inr (fst (gcircuit_and_s g a b) ! r))
        \<and> (\<exists>r. snd (gcircuit_rsub_s g a (PInt 1)) = Inr r \<and> fresh g r
            \<and> r < length (fst (gcircuit_rsub_s g a (PInt 1)))
            \<and> gcircuit_rsub (g ! a) (PInt 1) = Inr (fst (gcircuit_rsub_s g a (PInt 1)) ! r)))"
proof -
  have c1: "extends h (fst (circuit_or_s h c v)) \<and> fresh h (snd (circuit_or_s h c v))
      \<and> fst (circuit_or_s h c v) ! snd (circuit_or_s h c v) = CObject ''or'' (PList [PObj c, v])"
    by (simp add: circuit_or_s_eq extends_append fresh_length)
  have c2: "extends h (fst (circuit_and_s h c v)) \<and> fresh h (snd (circuit_and_s h c v))
      \<and> fst (circuit_and_s h c v) ! snd (circuit_and_s h c v) = CObject ''and'' (PList [PObj c, v])"
    by (simp add: circuit_and_s_eq extends_append fresh_length)
  have c3: "extends h (fst (circuit_rsub_s h c v))
      \<and> (\<exists>r. snd (circuit_rsub_s h c (PInt 1)) = Inr r \<and> fresh h r
            \<and> fst (circuit_rsub_s h c (PInt 1)) ! r = CObject ''not'' (PList [PObj c]))"
    by (simp add: circuit_rsub_s_eq circuit_rsub_s_frame fresh_length)
  have d1: "extends k (fst (dcircuit_or_s k c v)) \<and> fresh k (snd (dcircuit_or_s k c v))
      \<and> fst (dcircuit_or_s k c v) ! snd (dcircuit_or_s k c v) = [(''or'', PList [PObj c, v])]"
    by (simp add: dcircuit_or_s_eq extends_append fresh_length)
  have d2: "extends k (fst (dcircuit_and_s k c v)) \<and> fresh k (snd (dcircuit_and_s k c v))
      \<and> fst (dcircuit_and_s k c v) ! snd (dcircuit_and_s k c v) = [(''and'', PList [PObj c, v])]"
    by (simp add: dcircuit_and_s_eq extends_append fresh_length)
  have d3: "extends k (fst (dcircuit_rsub_s k c v))
      \<and> (\<exists>r. snd (dcircuit_rsub_s k c (PInt 1)) = Inr r \<and> fresh k r
            \<and> fst (dcircuit_rsub_s k c (PInt 1)) ! r = [(''not'', PList [PObj c])])"
    by (simp add: dcircuit_rsub_s_eq dcircuit_rsub_s_frame fresh_length)
  have g1: "extends g (fst (gcircuit_or_s g a b))"
    unfolding gcircuit_or_s_def by (rule extends_take) (rule gcircuit_binary_s_frame)
  have g2: "extends g (fst (gcircuit_and_s g a b))"
    unfolding gcircuit_and_s_def by (rule extends_take) (rule gcircuit_binary_s_frame)
  have g3: "extends g (fst (gcircuit_rsub_s g a u))"
    by (rule extends_take) (rule gcircuit_rsub_s_frame)
  have g4: "(\<exists>r. snd (gcircuit_or_s g a b) = Inr r \<and> fresh g r
            \<and> r < length (fst (gcircuit_or_s g a b))
            \<and> gcircuit_or (g ! a) (g ! b) = Inr (fst (gcircuit_or_s g a b) ! r))
        \<and> (\<exists>r. snd (gcircuit_and_s g a b) = Inr r \<and> fresh g r
            \<and> r < length (fst (gcircuit_and_s g a b))
            \<and> gcircuit_and (g ! a) (g ! b) = Inr (fst (gcircuit_and_s g a b) ! r))
        \<and> (\<exists>r. snd (gcircuit_rsub_s g a (PInt 1)) = Inr r \<and> fresh g r
            \<and> r < length (fst (gcircuit_rsub_s g a (PInt 1)))
            \<and> gcircuit_rsub (g ! a) (PInt 1) = Inr (fst (gcircuit_rsub_s g a (PInt 1)) ! r))"
    if ok: "a < length g \<and> b < length g \<and> nodes (g ! a) \<noteq> [] \<and> nodes (g ! b) \<noteq> []"
  proof (intro conjI)
    from ok have a: "a < length g" and b: "b < length g"
      and na: "nodes (g ! a) \<noteq> []" and nb: "nodes (g ! b) \<noteq> []" by simp_all
    show "\<exists>r. snd (gcircuit_or_s g a b) = Inr r \<and> fresh g r
            \<and> r < length (fst (gcircuit_or_s g a b))
            \<and> gcircuit_or (g ! a) (g ! b) = Inr (fst (gcircuit_or_s g a b) ! r)"
      unfolding gcircuit_or_s_def gcircuit_or_def
      by (rule gcircuit_binary_s_returns [OF a b na nb]) (rule vee_not_prefixed)+
    show "\<exists>r. snd (gcircuit_and_s g a b) = Inr r \<and> fresh g r
            \<and> r < length (fst (gcircuit_and_s g a b))
            \<and> gcircuit_and (g ! a) (g ! b) = Inr (fst (gcircuit_and_s g a b) ! r)"
      unfolding gcircuit_and_s_def gcircuit_and_def
      by (rule gcircuit_binary_s_returns [OF a b na nb]) (rule wedge_not_prefixed)+
    show "\<exists>r. snd (gcircuit_rsub_s g a (PInt 1)) = Inr r \<and> fresh g r
            \<and> r < length (fst (gcircuit_rsub_s g a (PInt 1)))
            \<and> gcircuit_rsub (g ! a) (PInt 1) = Inr (fst (gcircuit_rsub_s g a (PInt 1)) ! r)"
      by (rule gcircuit_rsub_s_returns [OF a na])
  qed
  from c1 c2 c3 d1 d2 d3 g1 g2 g3 g4 show ?thesis by blast
qed

theorem operators_frame_witness:
  "0 < length [gcircuit_init (Some ''x''), gcircuit_init (Some ''y'')]
   \<and> 1 < length [gcircuit_init (Some ''x''), gcircuit_init (Some ''y'')]
   \<and> nodes ([gcircuit_init (Some ''x''), gcircuit_init (Some ''y'')] ! 0) \<noteq> []
   \<and> nodes ([gcircuit_init (Some ''x''), gcircuit_init (Some ''y'')] ! 1) \<noteq> []
   \<and> (\<exists>r. snd (gcircuit_or_s [gcircuit_init (Some ''x''), gcircuit_init (Some ''y'')] 0 1) = Inr r
         \<and> fresh [gcircuit_init (Some ''x''), gcircuit_init (Some ''y'')] r)
   \<and> extends [gcircuit_init (Some ''x''), gcircuit_init (Some ''y'')]
        (fst (gcircuit_or_s [gcircuit_init (Some ''x''), gcircuit_init (Some ''y'')] 0 1))"
proof -
  let ?g = "[gcircuit_init (Some ''x''), gcircuit_init (Some ''y'')]"
  have h: "0 < length ?g \<and> 1 < length ?g \<and> nodes (?g ! 0) \<noteq> [] \<and> nodes (?g ! 1) \<noteq> []"
    by (simp add: nodes_init)
  from operators_frame [where g = ?g and a = 0 and b = 1] h
  have "(\<exists>r. snd (gcircuit_or_s ?g 0 1) = Inr r \<and> fresh ?g r)
      \<and> extends ?g (fst (gcircuit_or_s ?g 0 1))"
    by blast
  with h show ?thesis by blast
qed

section \<open>The store holds the trees\<close>

text \<open>
  The operators on the store build, behind the address they return, the tree that the
  operators on trees compute from the trees behind the operands; and an address stands
  for the same tree in the store after the operation as before it.
\<close>

lemma rep_append: "rep h a t \<Longrightarrow> rep (h @ xs) a t"
  and rep_val_append: "rep_val h v tv \<Longrightarrow> rep_val (h @ xs) v tv"
proof (induction rule: rep_rep_val.inducts)
  case (obj a h opn v t)
  then show ?case by (auto intro!: rep_rep_val.obj simp: nth_append)
next
  case (list h vs ts)
  then have "list_all2 (rep_val (h @ xs)) vs ts"
    by (auto elim: list_all2_mono)
  then show ?case by (rule rep_rep_val.list)
qed (auto intro: rep_rep_val.intros)

lemma rep_new_object:
  assumes "rep_val h v t"
  shows "rep (h @ [CObject opn v]) (length h) (Circuit opn t)"
proof (rule rep_rep_val.obj)
  show "rep_val (h @ [CObject opn v]) v t" using assms by (rule rep_val_append)
qed simp_all

lemma rep_or:
  assumes "rep h c tc" and "rep_val h v tv"
  shows "rep (fst (circuit_or_s h c v)) (snd (circuit_or_s h c v)) (circuit_or tc tv)"
proof -
  have "rep_val h (PList [PObj c, v]) (PList [PObj tc, tv])"
    using assms by (auto intro!: rep_rep_val.intros)
  then show ?thesis
    by (simp add: circuit_or_s_def circuit_init_s_def alloc_def circuit_or_def circuit_init_def
        rep_new_object)
qed

lemma rep_and:
  assumes "rep h c tc" and "rep_val h v tv"
  shows "rep (fst (circuit_and_s h c v)) (snd (circuit_and_s h c v)) (circuit_and tc tv)"
proof -
  have "rep_val h (PList [PObj c, v]) (PList [PObj tc, tv])"
    using assms by (auto intro!: rep_rep_val.intros)
  then show ?thesis
    by (simp add: circuit_and_s_def circuit_init_s_def alloc_def circuit_and_def circuit_init_def
        rep_new_object)
qed

lemma rep_rsub:
  assumes "rep h c tc"
  shows "\<exists>r t. snd (circuit_rsub_s h c (PInt 1)) = Inr r \<and> circuit_rsub tc (PInt 1) = Inr t
           \<and> rep (fst (circuit_rsub_s h c (PInt 1))) r t"
proof -
  have "rep_val h (PList [PObj c]) (PList [PObj tc])"
    using assms by (auto intro!: rep_rep_val.intros)
  then show ?thesis
    by (simp add: circuit_rsub_s_def circuit_init_s_def alloc_def circuit_rsub_def
        circuit_init_def not_int_one_def rep_new_object)
qed

lemma rep_kept:
  assumes "rep h a t"
  shows "rep (fst (circuit_or_s h c v)) a t" and "rep (fst (circuit_and_s h c v)) a t"
    and "rep (fst (circuit_rsub_s h c v)) a t"
  using assms
  by (simp_all add: circuit_or_s_def circuit_and_s_def circuit_rsub_s_def circuit_init_s_def
      alloc_def rep_append)

lemma drep_append: "drep h a t \<Longrightarrow> drep (h @ xs) a t"
  and drep_val_append: "drep_val h v tv \<Longrightarrow> drep_val (h @ xs) v tv"
proof (induction rule: drep_drep_val.inducts)
  case (obj a h kvs)
  then have "list_all2 (rel_prod (=) (drep_val (h @ xs))) (h ! a) kvs"
    by (auto elim!: list_all2_mono rel_prod.cases)
  with obj(1) show ?case by (auto intro!: drep_drep_val.obj simp: nth_append)
next
  case (list h vs ts)
  then have "list_all2 (drep_val (h @ xs)) vs ts"
    by (auto elim: list_all2_mono)
  then show ?case by (rule drep_drep_val.list)
qed (auto intro: drep_drep_val.intros)

lemma drep_new_object:
  assumes "drep_val h v t"
  shows "drep (h @ [[(k, v)]]) (length h) (DCircuit [(k, t)])"
proof (rule drep_drep_val.obj)
  have "drep_val (h @ [[(k, v)]]) v t" using assms by (rule drep_val_append)
  then show "list_all2 (rel_prod (=) (drep_val (h @ [[(k, v)]]))) ((h @ [[(k, v)]]) ! length h)
               [(k, t)]"
    by simp
qed simp

lemma drep_or:
  assumes "drep h c tc" and "drep_val h v tv"
  shows "drep (fst (dcircuit_or_s h c v)) (snd (dcircuit_or_s h c v)) (dcircuit_or tc tv)"
proof -
  have "drep_val h (PList [PObj c, v]) (PList [PObj tc, tv])"
    using assms by (auto intro!: drep_drep_val.intros)
  then show ?thesis
    by (simp add: dcircuit_or_s_def dcircuit_init_s_def alloc_def dcircuit_or_def
        dcircuit_init_def drep_new_object)
qed

lemma drep_and:
  assumes "drep h c tc" and "drep_val h v tv"
  shows "drep (fst (dcircuit_and_s h c v)) (snd (dcircuit_and_s h c v)) (dcircuit_and tc tv)"
proof -
  have "drep_val h (PList [PObj c, v]) (PList [PObj tc, tv])"
    using assms by (auto intro!: drep_drep_val.intros)
  then show ?thesis
    by (simp add: dcircuit_and_s_def dcircuit_init_s_def alloc_def dcircuit_and_def
        dcircuit_init_def drep_new_object)
qed

lemma drep_rsub:
  assumes "drep h c tc"
  shows "\<exists>r t. snd (dcircuit_rsub_s h c (PInt 1)) = Inr r \<and> dcircuit_rsub tc (PInt 1) = Inr t
           \<and> drep (fst (dcircuit_rsub_s h c (PInt 1))) r t"
proof -
  have "drep_val h (PList [PObj c]) (PList [PObj tc])"
    using assms by (auto intro!: drep_drep_val.intros)
  then show ?thesis
    by (simp add: dcircuit_rsub_s_def dcircuit_init_s_def alloc_def dcircuit_rsub_def
        dcircuit_init_def not_int_one_def drep_new_object)
qed

lemma drep_kept:
  assumes "drep h a t"
  shows "drep (fst (dcircuit_or_s h c v)) a t" and "drep (fst (dcircuit_and_s h c v)) a t"
    and "drep (fst (dcircuit_rsub_s h c v)) a t"
  using assms
  by (simp_all add: dcircuit_or_s_def dcircuit_and_s_def dcircuit_rsub_s_def dcircuit_init_s_def
      alloc_def drep_append)

end
